theory Spec2Isabelle
  imports Main "HOL-Library.Word"
begin

unbundle bit_operations_syntax

section \<open>The FFAB frame-archive container: encoder, decoder and inspector\<close>

text \<open>
  A shallow embedding of \<^verbatim>\<open>ffa-bundle/ffab_encoder.py\<close>, \<^verbatim>\<open>ffa-bundle/tools/ffab_encoder.py\<close>,
  \<^verbatim>\<open>ffa-bundle/ffab_decoder.py\<close> and \<^verbatim>\<open>ffa-bundle/ffab_info.py\<close>.

  \<^item> A file is the list of its bytes; \<^verbatim>\<open>f.seek(k); f.read(n)\<close> yields \<open>take n (drop k file)\<close>,
    which is short (or empty) past the end of the file, as Python's \<^verbatim>\<open>read\<close> is. Where \<open>k\<close>
    is read from the file, \<^verbatim>\<open>seek\<close> can also raise: see \<open>read_compressed_image_data\<close>.
  \<^item> The integers of the Python code are lengths, array shapes, offsets and unpacked unsigned
    fields: never negative, unbounded. They are \<open>nat\<close>.
  \<^item> Every \<^verbatim>\<open>raise\<close> is a value \<open>Inl e\<close> of the result type \<open>error + 'a\<close>.
  \<^item> The ASTC codec (\<^verbatim>\<open>astcenc\<close>, run as a subprocess on temporary files) and PIL are outside
    the repository. The writers are stated for any function \<^verbatim>\<open>compress_with_astc\<close> and the
    decoder for any codec run; \<open>enc_compress_with_astc\<close> is the function the encoder calls, over
    PIL and \<^verbatim>\<open>astcenc\<close> as parameters.
\<close>

subsection \<open>Errors\<close>

text \<open>
  The Python code signals every failure by an exception; the constructors name the raise
  sites.
  \<^item> \<open>EmptyFrameList\<close>: \<^verbatim>\<open>ValueError\<close>, no image available (both the writers and
    \<^verbatim>\<open>check_images_dimensions\<close>).
  \<^item> \<open>DimensionMismatch n\<close>: \<^verbatim>\<open>ValueError\<close>, image \<open>n\<close> differs in size from the first one.
  \<^item> \<open>InvalidFormatName s\<close>: \<^verbatim>\<open>ValueError\<close>, \<open>s\<close> is no key of \<^verbatim>\<open>ASTC_FORMAT_CODES\<close>.
  \<^item> \<open>PreambleMismatch n\<close>: \<^verbatim>\<open>ValueError\<close>, the first 16 bytes the codec produced for image
    \<open>n\<close> are not the expected ASTC header.
  \<^item> \<open>InvalidMagic\<close>, \<open>UnsupportedVersion v\<close>: the two \<^verbatim>\<open>ValueError\<close>s of \<^verbatim>\<open>read_ffab_header\<close>.
  \<^item> \<open>UnknownFormatCode c\<close>: \<^verbatim>\<open>ValueError\<close> of \<^verbatim>\<open>decode_ffab_file\<close>, code \<open>c\<close> is not in
    \<^verbatim>\<open>ASTC_CODE_TO_FORMAT\<close>.
  \<^item> \<open>StructError\<close>: \<^verbatim>\<open>struct.error\<close>, a value out of the range of its field in
    \<^verbatim>\<open>struct.pack\<close>, or a buffer of the wrong size in \<^verbatim>\<open>struct.unpack\<close>.
  \<^item> \<open>ValueError\<close>: the \<^verbatim>\<open>ValueError\<close> of \<^verbatim>\<open>int(...)\<close>, of tuple unpacking, and of \<^verbatim>\<open>f.seek\<close> on an
    offset that does not fit a signed 64-bit file offset.
  \<^item> \<open>OverflowError\<close>: \<^verbatim>\<open>OverflowError\<close> of \<^verbatim>\<open>f.read\<close> on a size that does not fit a signed 64-bit
    size.
  \<^item> \<open>ImageError\<close>: an exception raised inside PIL (\<^verbatim>\<open>Image.fromarray\<close>, \<^verbatim>\<open>img.save\<close>).
  \<^item> \<open>CodecError\<close>: \<^verbatim>\<open>RuntimeError\<close>, the codec subprocess failed.
\<close>

datatype error =
    EmptyFrameList
  | DimensionMismatch string
  | InvalidFormatName string
  | PreambleMismatch string
  | InvalidMagic
  | UnsupportedVersion nat
  | UnknownFormatCode nat
  | StructError
  | ValueError
  | OverflowError
  | ImageError
  | CodecError

subsection \<open>Bytes and \<^verbatim>\<open>struct\<close>\<close>

type_synonym byte = "8 word"

text \<open>Big-endian unsigned fields: \<open>be_bytes k n\<close> is \<open>n\<close> on \<open>k\<close> bytes, \<open>be_nat\<close> reads it back.\<close>

fun be_bytes :: "nat \<Rightarrow> nat \<Rightarrow> byte list" where
  "be_bytes 0 n = []"
| "be_bytes (Suc k) n = be_bytes k (n div 256) @ [of_nat (n mod 256)]"

definition be_nat :: "byte list \<Rightarrow> nat" where
  "be_nat bs = foldl (\<lambda>acc b. acc * 256 + unat b) 0 bs"

text \<open>\<^verbatim>\<open>struct.pack('>HH', a, b)\<close> and \<^verbatim>\<open>struct.unpack('>HH', buf)\<close>.\<close>

definition pack_HH :: "nat \<Rightarrow> nat \<Rightarrow> error + byte list" where
  "pack_HH a b =
     (if a < 65536 \<and> b < 65536 then Inr (be_bytes 2 a @ be_bytes 2 b) else Inl StructError)"

definition unpack_HH :: "byte list \<Rightarrow> error + nat \<times> nat" where
  "unpack_HH buf =
     (if length buf \<noteq> 4 then Inl StructError
      else Inr (be_nat (take 2 buf), be_nat (take 2 (drop 2 buf))))"

text \<open>\<^verbatim>\<open>struct.pack('>HHHH', a, b, c, d)\<close> and \<^verbatim>\<open>struct.unpack('>HHHH', buf)\<close>.\<close>

definition pack_HHHH :: "nat \<Rightarrow> nat \<Rightarrow> nat \<Rightarrow> nat \<Rightarrow> error + byte list" where
  "pack_HHHH a b c d =
     (if a < 65536 \<and> b < 65536 \<and> c < 65536 \<and> d < 65536
      then Inr (be_bytes 2 a @ be_bytes 2 b @ be_bytes 2 c @ be_bytes 2 d)
      else Inl StructError)"

definition unpack_HHHH :: "byte list \<Rightarrow> error + nat \<times> nat \<times> nat \<times> nat" where
  "unpack_HHHH buf =
     (if length buf \<noteq> 8 then Inl StructError
      else Inr (be_nat (take 2 buf), be_nat (take 2 (drop 2 buf)),
                be_nat (take 2 (drop 4 buf)), be_nat (take 2 (drop 6 buf))))"

text \<open>\<^verbatim>\<open>struct.pack('>QI', offset, length)\<close> and \<^verbatim>\<open>struct.unpack('>QI', buf)\<close>.\<close>

definition pack_QI :: "nat \<Rightarrow> nat \<Rightarrow> error + byte list" where
  "pack_QI q i =
     (if q < 2 ^ 64 \<and> i < 2 ^ 32 then Inr (be_bytes 8 q @ be_bytes 4 i) else Inl StructError)"

definition unpack_QI :: "byte list \<Rightarrow> error + nat \<times> nat" where
  "unpack_QI buf =
     (if length buf \<noteq> 12 then Inl StructError
      else Inr (be_nat (take 8 buf), be_nat (take 4 (drop 8 buf))))"

text \<open>\<^verbatim>\<open>struct.pack\<close> of a run of \<^verbatim>\<open>B\<close> fields: each value must fit one byte.\<close>

definition pack_Bs :: "nat list \<Rightarrow> error + byte list" where
  "pack_Bs vs = (if list_all (\<lambda>v. v < 256) vs then Inr (map of_nat vs) else Inl StructError)"

subsection \<open>Strings\<close>

text \<open>
  \<^verbatim>\<open>str.lower()\<close> on ASCII, \<^verbatim>\<open>str.split(sep)\<close> for a one-character separator, and \<^verbatim>\<open>int(s)\<close>
  on strings of ASCII digits. (Python's \<^verbatim>\<open>int\<close> also accepts a sign, surrounding white space
  and underscores between digits; no key of the format table has any of these, and a string
  that is not made of digits only is \<open>ValueError\<close> here.)
\<close>

definition lower_char :: "char \<Rightarrow> char" where
  "lower_char c =
     (let n = (of_char c :: nat) in if 65 \<le> n \<and> n \<le> 90 then char_of (n + 32) else c)"

definition lower :: "string \<Rightarrow> string" where
  "lower s = map lower_char s"

fun split :: "char \<Rightarrow> string \<Rightarrow> string list" where
  "split sep [] = [[]]"
| "split sep (c # cs) =
     (if c = sep then [] # split sep cs
      else (case split sep cs of [] \<Rightarrow> [[c]] | w # ws \<Rightarrow> (c # w) # ws))"

definition is_digit :: "char \<Rightarrow> bool" where
  "is_digit c = (let n = (of_char c :: nat) in 48 \<le> n \<and> n \<le> 57)"

definition py_int :: "string \<Rightarrow> error + nat" where
  "py_int s =
     (if s \<noteq> [] \<and> list_all is_digit s
      then Inr (foldl (\<lambda>acc c. acc * 10 + (of_char c - 48)) 0 s)
      else Inl ValueError)"

subsection \<open>Format constants\<close>

definition FFAB_MAGIC :: nat where
  "FFAB_MAGIC = 0xFFAB"

definition FFAB_VERSION_0x0001 :: nat where
  "FFAB_VERSION_0x0001 = 0x0001"

text \<open>
  A Python dict built from a sequence of pairs: a later pair replaces an earlier one with
  the same key.
\<close>

definition dict_of :: "('k \<times> 'v) list \<Rightarrow> ('k \<rightharpoonup> 'v)" where
  "dict_of kvs = map_of (rev kvs)"

text \<open>
  \<^verbatim>\<open>ASTC_FORMAT_CODES\<close>: the same literal in all four source files, in the order written.
\<close>

definition ASTC_FORMAT_CODES_items :: "(string \<times> nat) list" where
  "ASTC_FORMAT_CODES_items =
     [(''4x4'', 0x0001), (''5x4'', 0x0002), (''5x5'', 0x0003), (''6x5'', 0x0004),
      (''6x6'', 0x0005), (''8x5'', 0x0006), (''8x6'', 0x0007), (''8x8'', 0x0008),
      (''10x5'', 0x0009), (''10x6'', 0x000A), (''10x8'', 0x000B), (''10x10'', 0x000C),
      (''12x10'', 0x000D), (''12x12'', 0x000E)]"

definition ASTC_FORMAT_CODES :: "string \<rightharpoonup> nat" where
  "ASTC_FORMAT_CODES = dict_of ASTC_FORMAT_CODES_items"

text \<open>\<^verbatim>\<open>ASTC_CODE_TO_FORMAT = {v: k for k, v in ASTC_FORMAT_CODES.items()}\<close> (decoder, inspector).\<close>

definition ASTC_CODE_TO_FORMAT :: "nat \<rightharpoonup> string" where
  "ASTC_CODE_TO_FORMAT = dict_of (map (\<lambda>(k, v). (v, k)) ASTC_FORMAT_CODES_items)"

subsection \<open>The ASTC header (preamble), once in the encoder and once in the decoder\<close>

text \<open>\<^verbatim>\<open>ffab_encoder.generate_astc_header\<close>.\<close>

definition enc_generate_astc_header :: "nat \<Rightarrow> nat \<Rightarrow> string \<Rightarrow> error + byte list" where
  "enc_generate_astc_header width height astc_format =
     (case split (CHR ''x'') astc_format of
        [sx, sy] \<Rightarrow>
          (case py_int sx of Inl e \<Rightarrow> Inl e | Inr block_x \<Rightarrow>
             (case py_int sy of Inl e \<Rightarrow> Inl e | Inr block_y \<Rightarrow>
                pack_Bs [0x13, 0xAB, 0xA1, 0x5C,
                         block_x, block_y, 1,
                         width AND 0xFF, drop_bit 8 width AND 0xFF, drop_bit 16 width AND 0xFF,
                         height AND 0xFF, drop_bit 8 height AND 0xFF, drop_bit 16 height AND 0xFF,
                         1, 0, 0]))
      | _ \<Rightarrow> Inl ValueError)"

text \<open>\<^verbatim>\<open>ffab_decoder.generate_astc_header\<close>.\<close>

definition dec_generate_astc_header :: "nat \<Rightarrow> nat \<Rightarrow> string \<Rightarrow> error + byte list" where
  "dec_generate_astc_header width height astc_format =
     (case split (CHR ''x'') astc_format of
        [sx, sy] \<Rightarrow>
          (case py_int sx of Inl e \<Rightarrow> Inl e | Inr block_x \<Rightarrow>
             (case py_int sy of Inl e \<Rightarrow> Inl e | Inr block_y \<Rightarrow>
                pack_Bs [0x13, 0xAB, 0xA1, 0x5C,
                         block_x, block_y, 1,
                         width AND 0xFF, drop_bit 8 width AND 0xFF, drop_bit 16 width AND 0xFF,
                         height AND 0xFF, drop_bit 8 height AND 0xFF, drop_bit 16 height AND 0xFF,
                         1, 0, 0]))
      | _ \<Rightarrow> Inl ValueError)"

subsection \<open>The encoder (\<^verbatim>\<open>ffab_encoder.py\<close>)\<close>

text \<open>
  An image is a numpy array; the code reads only its first two dimensions,
  \<^verbatim>\<open>img_data.shape[:2]\<close>, which is (height, width). The pixels go to the codec unread.
\<close>

record ndarray =
  shape :: "nat \<times> nat"
  pixels :: "byte list"

definition get_astc_format_code :: "string \<Rightarrow> error + nat" where
  "get_astc_format_code format_name =
     (let format_name = lower format_name in
      case ASTC_FORMAT_CODES format_name of
        Some code \<Rightarrow> Inr code
      | None \<Rightarrow> Inl (InvalidFormatName format_name))"

definition check_images_dimensions :: "(string \<times> ndarray) list \<Rightarrow> error + nat \<times> nat" where
  "check_images_dimensions images =
     (case images of
        [] \<Rightarrow> Inl EmptyFrameList
      | (first_img_name, first_img_data) # rest \<Rightarrow>
          (let (height, width) = shape first_img_data in
           case find (\<lambda>(img_name, img_data).
                        fst (shape img_data) \<noteq> height \<or> snd (shape img_data) \<noteq> width) rest of
             Some (img_name, img_data) \<Rightarrow> Inl (DimensionMismatch img_name)
           | None \<Rightarrow> Inr (width, height)))"

text \<open>
  The \<^verbatim>\<open>for img_name, img_data in images\<close> loop of \<^verbatim>\<open>create_ffab_file_v1\<close>: it returns
  \<^verbatim>\<open>index_entries\<close> and \<^verbatim>\<open>image_data_blocks\<close>. \<open>compress_with_astc\<close> is the codec,
  \<open>current_offset\<close> the running offset.
\<close>

fun create_ffab_file_v1_loop ::
  "(ndarray \<Rightarrow> string \<Rightarrow> 'q \<Rightarrow> error + byte list) \<Rightarrow> string \<Rightarrow> 'q \<Rightarrow> byte list \<Rightarrow> nat \<Rightarrow>
   (string \<times> ndarray) list \<Rightarrow> error + byte list list \<times> byte list list" where
  "create_ffab_file_v1_loop compress_with_astc astc_format quality astc_header current_offset [] =
     Inr ([], [])"
| "create_ffab_file_v1_loop compress_with_astc astc_format quality astc_header current_offset
     ((img_name, img_data) # images) =
     (case compress_with_astc img_data astc_format quality of
        Inl e \<Rightarrow> Inl e
      | Inr astc_compressed_data \<Rightarrow>
          if take 16 astc_compressed_data \<noteq> astc_header then Inl (PreambleMismatch img_name)
          else
            (let compressed_data = drop 16 astc_compressed_data;
                 data_length = length compressed_data in
             case pack_QI current_offset data_length of
               Inl e \<Rightarrow> Inl e
             | Inr entry \<Rightarrow>
                 (case create_ffab_file_v1_loop compress_with_astc astc_format quality astc_header
                         (current_offset + data_length) images of
                    Inl e \<Rightarrow> Inl e
                  | Inr (index_entries, image_data_blocks) \<Rightarrow>
                      Inr (entry # index_entries, compressed_data # image_data_blocks))))"

text \<open>\<^verbatim>\<open>create_ffab_file_v1\<close>: the result is the content written to \<^verbatim>\<open>output_path\<close>.\<close>

definition create_ffab_file_v1 ::
  "(ndarray \<Rightarrow> string \<Rightarrow> 'q \<Rightarrow> error + byte list) \<Rightarrow> (string \<times> ndarray) list \<Rightarrow> string \<Rightarrow> 'q \<Rightarrow>
   error + byte list" where
  "create_ffab_file_v1 compress_with_astc images astc_format quality =
     (if images = [] then Inl EmptyFrameList
      else
        case check_images_dimensions images of Inl e \<Rightarrow> Inl e | Inr (width, height) \<Rightarrow>
       (case get_astc_format_code astc_format of Inl e \<Rightarrow> Inl e | Inr astc_format_code \<Rightarrow>
       (case pack_HH FFAB_MAGIC 0x0001 of Inl e \<Rightarrow> Inl e | Inr header \<Rightarrow>
       (let image_count = length images in
        case pack_HHHH image_count width height astc_format_code of Inl e \<Rightarrow> Inl e | Inr meta \<Rightarrow>
       (let data_start_offset = 4 + 8 + (image_count * 12) in
        case enc_generate_astc_header width height astc_format of Inl e \<Rightarrow> Inl e | Inr astc_header \<Rightarrow>
       (case create_ffab_file_v1_loop compress_with_astc astc_format quality astc_header
               data_start_offset images of
          Inl e \<Rightarrow> Inl e
        | Inr (index_entries, image_data_blocks) \<Rightarrow>
            Inr (header @ meta @ concat index_entries @ concat image_data_blocks)))))))"

text \<open>
  \<^verbatim>\<open>compress_with_astc\<close> of \<^verbatim>\<open>ffab_encoder.py\<close>, the function \<^verbatim>\<open>create_ffab_file_v1\<close> is called with
  in the program. It first has PIL turn the array into an image and save it as a PNG file
  (\<^verbatim>\<open>Image.fromarray\<close>, \<^verbatim>\<open>img.save\<close>), then runs \<^verbatim>\<open>astcenc -cl\<close> on that file, raises \<^verbatim>\<open>RuntimeError\<close>
  when the return code is not zero, and returns the content of the output file otherwise.
  PIL and \<^verbatim>\<open>astcenc\<close> are outside the repository: \<open>pil_save_png\<close> yields the PNG file or the
  exception PIL raises, \<open>astcenc_cl\<close> yields the output file, or \<open>None\<close> for a non-zero return
  code.
\<close>

definition enc_compress_with_astc ::
  "(ndarray \<Rightarrow> error + 'png) \<Rightarrow> ('png \<Rightarrow> string \<Rightarrow> 'q \<Rightarrow> byte list option) \<Rightarrow>
   ndarray \<Rightarrow> string \<Rightarrow> 'q \<Rightarrow> error + byte list" where
  "enc_compress_with_astc pil_save_png astcenc_cl img_data astc_format quality =
     (case pil_save_png img_data of
        Inl e \<Rightarrow> Inl e
      | Inr input_png \<Rightarrow>
          (case astcenc_cl input_png astc_format quality of
             None \<Rightarrow> Inl CodecError
           | Some compressed_data \<Rightarrow> Inr compressed_data))"

subsection \<open>The older encoder (\<^verbatim>\<open>tools/ffab_encoder.py\<close>)\<close>

text \<open>
  Its \<^verbatim>\<open>get_astc_format_code\<close> and \<^verbatim>\<open>check_images_dimensions\<close> are those of the encoder above,
  its codec takes no quality, and it has no \<^verbatim>\<open>generate_astc_header\<close>.
\<close>

fun tools_create_ffab_file_v1_loop ::
  "(ndarray \<Rightarrow> string \<Rightarrow> error + byte list) \<Rightarrow> string \<Rightarrow> nat \<Rightarrow> (string \<times> ndarray) list \<Rightarrow>
   error + byte list list \<times> byte list list" where
  "tools_create_ffab_file_v1_loop compress_with_astc astc_format current_offset [] = Inr ([], [])"
| "tools_create_ffab_file_v1_loop compress_with_astc astc_format current_offset
     ((img_name, img_data) # images) =
     (case compress_with_astc img_data astc_format of
        Inl e \<Rightarrow> Inl e
      | Inr compressed_data \<Rightarrow>
          (let data_length = length compressed_data in
           case pack_QI current_offset data_length of
             Inl e \<Rightarrow> Inl e
           | Inr entry \<Rightarrow>
               (case tools_create_ffab_file_v1_loop compress_with_astc astc_format
                       (current_offset + data_length) images of
                  Inl e \<Rightarrow> Inl e
                | Inr (index_entries, image_data_blocks) \<Rightarrow>
                    Inr (entry # index_entries, compressed_data # image_data_blocks))))"

definition tools_create_ffab_file_v1 ::
  "(ndarray \<Rightarrow> string \<Rightarrow> error + byte list) \<Rightarrow> (string \<times> ndarray) list \<Rightarrow> string \<Rightarrow>
   error + byte list" where
  "tools_create_ffab_file_v1 compress_with_astc images astc_format =
     (if images = [] then Inl EmptyFrameList
      else
        case check_images_dimensions images of Inl e \<Rightarrow> Inl e | Inr (width, height) \<Rightarrow>
       (case get_astc_format_code astc_format of Inl e \<Rightarrow> Inl e | Inr astc_format_code \<Rightarrow>
       (case pack_HH FFAB_MAGIC FFAB_VERSION_0x0001 of Inl e \<Rightarrow> Inl e | Inr header \<Rightarrow>
       (let image_count = length images in
        case pack_HHHH image_count width height astc_format_code of Inl e \<Rightarrow> Inl e | Inr meta \<Rightarrow>
       (let data_start_offset = 4 + 8 + (image_count * 12) in
        case tools_create_ffab_file_v1_loop compress_with_astc astc_format
               data_start_offset images of
          Inl e \<Rightarrow> Inl e
        | Inr (index_entries, image_data_blocks) \<Rightarrow>
            Inr (header @ meta @ concat index_entries @ concat image_data_blocks))))))"

subsection \<open>The decoder (\<^verbatim>\<open>ffab_decoder.py\<close>)\<close>

definition read_ffab_header :: "byte list \<Rightarrow> error + nat" where
  "read_ffab_header file =
     (let header = take 4 file in
      case unpack_HH header of
        Inl e \<Rightarrow> Inl e
      | Inr (magic, version) \<Rightarrow>
          if magic \<noteq> FFAB_MAGIC then Inl InvalidMagic
          else if version \<noteq> FFAB_VERSION_0x0001 then Inl (UnsupportedVersion version)
          else Inr version)"

definition read_ffab_meta :: "byte list \<Rightarrow> error + nat \<times> nat \<times> nat \<times> nat" where
  "read_ffab_meta file = (let meta = take 8 (drop 4 file) in unpack_HHHH meta)"

text \<open>
  The \<^verbatim>\<open>for _ in range(image_count)\<close> loop of \<^verbatim>\<open>read_ffab_index_table\<close>; \<open>f\<close> is what is left
  of the file from the current position on.
\<close>

fun read_ffab_index_table_loop :: "byte list \<Rightarrow> nat \<Rightarrow> error + (nat \<times> nat) list" where
  "read_ffab_index_table_loop f 0 = Inr []"
| "read_ffab_index_table_loop f (Suc n) =
     (let entry_data = take 12 f in
      case unpack_QI entry_data of
        Inl e \<Rightarrow> Inl e
      | Inr (offset, data_length) \<Rightarrow>
          (case read_ffab_index_table_loop (drop 12 f) n of
             Inl e \<Rightarrow> Inl e
           | Inr index_entries \<Rightarrow> Inr ((offset, data_length) # index_entries)))"

definition read_ffab_index_table :: "byte list \<Rightarrow> nat \<Rightarrow> error + (nat \<times> nat) list" where
  "read_ffab_index_table file image_count =
     (let index_start_offset = 4 + 8 in
      read_ffab_index_table_loop (drop index_start_offset file) image_count)"

text \<open>
  \<^verbatim>\<open>read_compressed_image_data\<close>: \<^verbatim>\<open>f.seek(offset)\<close> then \<^verbatim>\<open>f.read(data_length)\<close>. The offset is
  converted to a signed 64-bit file offset and the size to a signed 64-bit size: from
  \<open>2 ^ 63\<close> on, \<^verbatim>\<open>seek\<close> raises \<^verbatim>\<open>ValueError\<close> and \<^verbatim>\<open>read\<close> raises \<^verbatim>\<open>OverflowError\<close>. Below that,
  seeking past the end of the file is allowed, and \<^verbatim>\<open>read\<close> returns the bytes that are there,
  at most \<open>data_length\<close> of them. (A file system that refuses a smaller offset, and a machine
  that runs out of memory for the buffer, are not part of the model.)
\<close>

definition read_compressed_image_data :: "byte list \<Rightarrow> nat \<Rightarrow> nat \<Rightarrow> error + byte list" where
  "read_compressed_image_data file offset data_length =
     (if 2 ^ 63 \<le> offset then Inl ValueError
      else if 2 ^ 63 \<le> data_length then Inl OverflowError
      else Inr (take data_length (drop offset file)))"

text \<open>
  \<^verbatim>\<open>decode_astc_data\<close>: \<open>astcenc_dl\<close> is the codec run on the temporary file, whose content is
  the regenerated header followed by the compressed data; it yields the decoded image.
\<close>

definition decode_astc_data ::
  "(byte list \<Rightarrow> error + 'img) \<Rightarrow> byte list \<Rightarrow> nat \<Rightarrow> nat \<Rightarrow> string \<Rightarrow> error + 'img" where
  "decode_astc_data astcenc_dl compressed_data width height astc_format =
     (case dec_generate_astc_header width height astc_format of
        Inl e \<Rightarrow> Inl e
      | Inr astc_header \<Rightarrow> astcenc_dl (astc_header @ compressed_data))"

text \<open>
  The \<^verbatim>\<open>for i, (offset, data_length) in enumerate(index_entries)\<close> loop of \<^verbatim>\<open>decode_ffab_file\<close>;
  the result is the list of the images saved, in frame order. (In \<^verbatim>\<open>decode_ffab_file\<close> the
  \<^verbatim>\<open>assert\<close> on the version cannot fail: \<^verbatim>\<open>read_ffab_header\<close> returns no other version.)
\<close>

fun decode_ffab_file_loop ::
  "(byte list \<Rightarrow> error + 'img) \<Rightarrow> byte list \<Rightarrow> nat \<Rightarrow> nat \<Rightarrow> string \<Rightarrow> (nat \<times> nat) list \<Rightarrow>
   error + 'img list" where
  "decode_ffab_file_loop astcenc_dl file width height astc_format [] = Inr []"
| "decode_ffab_file_loop astcenc_dl file width height astc_format
     ((offset, data_length) # index_entries) =
     (case read_compressed_image_data file offset data_length of
        Inl e \<Rightarrow> Inl e
      | Inr compressed_data \<Rightarrow>
          (case decode_astc_data astcenc_dl compressed_data width height astc_format of
             Inl e \<Rightarrow> Inl e
           | Inr img_array \<Rightarrow>
               (case decode_ffab_file_loop astcenc_dl file width height astc_format
                       index_entries of
                  Inl e \<Rightarrow> Inl e
                | Inr imgs \<Rightarrow> Inr (img_array # imgs))))"

definition decode_ffab_file :: "(byte list \<Rightarrow> error + 'img) \<Rightarrow> byte list \<Rightarrow> error + 'img list" where
  "decode_ffab_file astcenc_dl file =
     (case read_ffab_header file of Inl e \<Rightarrow> Inl e | Inr version \<Rightarrow>
     (case read_ffab_meta file of Inl e \<Rightarrow> Inl e
      | Inr (image_count, width, height, astc_format_code) \<Rightarrow>
     (case ASTC_CODE_TO_FORMAT astc_format_code of
        None \<Rightarrow> Inl (UnknownFormatCode astc_format_code)
      | Some astc_format \<Rightarrow>
     (case read_ffab_index_table file image_count of Inl e \<Rightarrow> Inl e | Inr index_entries \<Rightarrow>
        decode_ffab_file_loop astcenc_dl file width height astc_format index_entries))))"

subsection \<open>The inspector (\<^verbatim>\<open>ffab_info.py\<close>)\<close>

text \<open>
  Its \<^verbatim>\<open>read_ffab_header\<close> returns the magic and the version (and the version as a hex
  string, left out here). Its \<^verbatim>\<open>read_ffab_meta\<close> returns the four fields and the format name,
  which for a code that is not in \<^verbatim>\<open>ASTC_CODE_TO_FORMAT\<close> is a placeholder string built from
  the code: \<open>UnknownName c\<close>. The keys of the dict it returns are the fields of \<open>meta_info\<close>,
  prefixed with \<open>meta_\<close>. (The strings \<^verbatim>\<open>resolution\<close> and \<^verbatim>\<open>astc_format_hex\<close>, formatted
  from the same fields, are left out.)
\<close>

definition info_read_ffab_header :: "byte list \<Rightarrow> error + nat \<times> nat" where
  "info_read_ffab_header file =
     (let header = take 4 file in
      case unpack_HH header of
        Inl e \<Rightarrow> Inl e
      | Inr (magic, version) \<Rightarrow>
          if magic \<noteq> FFAB_MAGIC then Inl InvalidMagic
          else if version \<noteq> FFAB_VERSION_0x0001 then Inl (UnsupportedVersion version)
          else Inr (magic, version))"

datatype format_name = KnownName string | UnknownName nat

record meta_info =
  meta_image_count :: nat
  meta_width :: nat
  meta_height :: nat
  meta_astc_format_code :: nat
  meta_astc_format :: format_name

definition info_read_ffab_meta :: "byte list \<Rightarrow> error + meta_info" where
  "info_read_ffab_meta file =
     (let meta = take 8 (drop 4 file) in
      case unpack_HHHH meta of
        Inl e \<Rightarrow> Inl e
      | Inr (image_count, width, height, astc_format_code) \<Rightarrow>
          Inr \<lparr>meta_image_count = image_count, meta_width = width, meta_height = height,
               meta_astc_format_code = astc_format_code,
               meta_astc_format = (case ASTC_CODE_TO_FORMAT astc_format_code of
                                     Some astc_format \<Rightarrow> KnownName astc_format
                                   | None \<Rightarrow> UnknownName astc_format_code)\<rparr>)"

subsection \<open>Auxiliary notions for the statements\<close>

text \<open>
  \<open>layout off ls\<close> is the index a running offset gives to payloads of lengths \<open>ls\<close>, starting
  at \<open>off\<close>; \<open>collect\<close> turns a list of results into the result of the list, failing with the
  first error, as a loop that raises does.
\<close>

fun layout :: "nat \<Rightarrow> nat list \<Rightarrow> (nat \<times> nat) list" where
  "layout off [] = []"
| "layout off (l # ls) = (off, l) # layout (off + l) ls"

fun collect :: "(error + 'a) list \<Rightarrow> error + 'a list" where
  "collect [] = Inr []"
| "collect (r # rs) =
     (case r of Inl e \<Rightarrow> Inl e
      | Inr x \<Rightarrow> (case collect rs of Inl e \<Rightarrow> Inl e | Inr xs \<Rightarrow> Inr (x # xs)))"

subsection \<open>A small container, used as a concrete input\<close>

text \<open>
  Two frames of 100 by 100 pixels in format \<open>6x6\<close>. The codec stands for an \<^verbatim>\<open>astcenc\<close> run: it
  answers with the 16-byte ASTC header of such an image followed by the frame's payload
  (three bytes for the first frame, two for the second).
\<close>

definition example_astcenc :: "ndarray \<Rightarrow> string \<Rightarrow> unit \<Rightarrow> error + byte list" where
  "example_astcenc img_data astc_format quality =
     Inr ([0x13, 0xAB, 0xA1, 0x5C, 6, 6, 1, 100, 0, 0, 100, 0, 0, 1, 0, 0] @ pixels img_data)"

definition example_images :: "(string \<times> ndarray) list" where
  "example_images =
     [(''frame_0.png'', \<lparr>shape = (100, 100), pixels = [0, 0, 0]\<rparr>),
      (''frame_1.png'', \<lparr>shape = (100, 100), pixels = [1, 1]\<rparr>)]"

definition example_file :: "byte list" where
  "example_file =
     [0xFF, 0xAB, 0, 1,
      0, 2, 0, 100, 0, 100, 0, 5,
      0, 0, 0, 0, 0, 0, 0, 36, 0, 0, 0, 3,
      0, 0, 0, 0, 0, 0, 0, 39, 0, 0, 0, 2,
      0, 0, 0,
      1, 1]"

text \<open>
  The same frames through the older encoder, whose codec takes no quality; the file is what
  \<^verbatim>\<open>tools/ffab_encoder.py\<close> writes for them.
\<close>

definition example_tools_astcenc :: "ndarray \<Rightarrow> string \<Rightarrow> error + byte list" where
  "example_tools_astcenc img_data astc_format =
     Inr ([0x13, 0xAB, 0xA1, 0x5C, 6, 6, 1, 100, 0, 0, 100, 0, 0, 1, 0, 0] @ pixels img_data)"

definition example_tools_file :: "byte list" where
  "example_tools_file =
     [0xFF, 0xAB, 0, 1,
      0, 2, 0, 100, 0, 100, 0, 5,
      0, 0, 0, 0, 0, 0, 0, 36, 0, 0, 0, 19,
      0, 0, 0, 0, 0, 0, 0, 55, 0, 0, 0, 18,
      0x13, 0xAB, 0xA1, 0x5C, 6, 6, 1, 100, 0, 0, 100, 0, 0, 1, 0, 0, 0, 0, 0,
      0x13, 0xAB, 0xA1, 0x5C, 6, 6, 1, 100, 0, 0, 100, 0, 0, 1, 0, 0, 1, 1]"

text \<open>The big-endian 16-bit field at byte \<open>k\<close> of a file.\<close>

definition u16_at :: "byte list \<Rightarrow> nat \<Rightarrow> nat" where
  "u16_at file k = unat (file ! k) * 256 + unat (file ! (k + 1))"

text \<open>
  Three single-frame containers that no writer produces: one whose format code (\<open>0x00FF\<close>) is
  not in the table; one whose only index entry starts one byte after the end of the index
  (offset 25 where the data region starts at 24); one whose only index entry declares ten
  bytes where the file holds three.
\<close>

definition example_unknown_code_file :: "byte list" where
  "example_unknown_code_file =
     [0xFF, 0xAB, 0, 1,
      0, 1, 0, 100, 0, 100, 0, 0xFF,
      0, 0, 0, 0, 0, 0, 0, 24, 0, 0, 0, 3,
      7, 7, 7]"

definition example_gap_file :: "byte list" where
  "example_gap_file =
     [0xFF, 0xAB, 0, 1,
      0, 1, 0, 100, 0, 100, 0, 5,
      0, 0, 0, 0, 0, 0, 0, 25, 0, 0, 0, 2,
      7, 7, 7]"

definition example_truncated_file :: "byte list" where
  "example_truncated_file =
     [0xFF, 0xAB, 0, 1,
      0, 1, 0, 100, 0, 100, 0, 5,
      0, 0, 0, 0, 0, 0, 0, 24, 0, 0, 0, 10,
      7, 7, 7]"

text \<open>
  A stand-in for PIL that refuses an image with a zero dimension and hands any other
  image on, and one for an \<^verbatim>\<open>astcenc -cl\<close> run that answers like \<open>example_astcenc\<close>.
\<close>

definition example_pil_save_png :: "ndarray \<Rightarrow> error + ndarray" where
  "example_pil_save_png img_data =
     (if fst (shape img_data) = 0 \<or> snd (shape img_data) = 0 then Inl ImageError
      else Inr img_data)"

definition example_astcenc_cl :: "ndarray \<Rightarrow> string \<Rightarrow> unit \<Rightarrow> byte list option" where
  "example_astcenc_cl input_png astc_format quality =
     Some ([0x13, 0xAB, 0xA1, 0x5C, 6, 6, 1, 100, 0, 0, 100, 0, 0, 1, 0, 0] @ pixels input_png)"

text \<open>
  A single-frame container whose only index entry has offset \<open>2 ^ 64 - 1\<close>.
\<close>

definition example_huge_offset_file :: "byte list" where
  "example_huge_offset_file =
     [0xFF, 0xAB, 0, 1,
      0, 1, 0, 100, 0, 100, 0, 5,
      0xFF, 0xFF, 0xFF, 0xFF, 0xFF, 0xFF, 0xFF, 0xFF, 0, 0, 0, 3,
      7, 7, 7]"

section \<open>Lemmas\<close>

subsection \<open>Big-endian fields\<close>

lemma length_be_bytes [simp]: "length (be_bytes k n) = k"
  by (induction k arbitrary: n) simp_all

lemma be_nat_Nil [simp]: "be_nat [] = 0"
  by (simp add: be_nat_def)

lemma be_nat_snoc [simp]: "be_nat (bs @ [b]) = be_nat bs * 256 + unat b"
  by (simp add: be_nat_def)

lemma unat_of_nat_byte: "unat (of_nat (n mod 256) :: byte) = n mod 256"
  by (simp add: unat_of_nat)

lemma be_nat_be_bytes: "n < 256 ^ k \<Longrightarrow> be_nat (be_bytes k n) = n"
proof (induction k arbitrary: n)
  case 0
  then show ?case by simp
next
  case (Suc k)
  then have "n div 256 < 256 ^ k"
    by (simp add: less_mult_imp_div_less mult.commute)
  then have "be_nat (be_bytes k (n div 256)) = n div 256"
    by (rule Suc.IH)
  then show ?case
    by (simp add: unat_of_nat_byte)
qed

lemma be_nat_bound: "be_nat bs < 256 ^ length bs"
proof (induction bs rule: rev_induct)
  case Nil
  then show ?case by simp
next
  case (snoc b bs)
  have "unat b < 256"
    using unsigned_less [of b] by simp
  with snoc show ?case by simp
qed

lemma be_nat_take_4: "be_nat (take 4 bs) < 2 ^ 32"
proof -
  have "be_nat (take 4 bs) < 256 ^ length (take 4 bs)"
    by (rule be_nat_bound)
  also have "(256 :: nat) ^ length (take 4 bs) \<le> 256 ^ 4"
    by (rule power_increasing) simp_all
  finally show ?thesis by simp
qed

lemma unpack_pack_HH: "pack_HH a b = Inr buf \<Longrightarrow> length buf = 4 \<and> unpack_HH buf = Inr (a, b)"
  by (auto simp: pack_HH_def unpack_HH_def be_nat_be_bytes split: if_splits)

lemma unpack_pack_HHHH:
  "pack_HHHH a b c d = Inr buf \<Longrightarrow> length buf = 8 \<and> unpack_HHHH buf = Inr (a, b, c, d)"
  by (auto simp: pack_HHHH_def unpack_HHHH_def be_nat_be_bytes split: if_splits)

lemma unpack_pack_QI: "pack_QI q i = Inr buf \<Longrightarrow> length buf = 12 \<and> unpack_QI buf = Inr (q, i)"
  by (auto simp: pack_QI_def unpack_QI_def be_nat_be_bytes split: if_splits)

lemma be_bytes_numeral:
  "be_bytes (numeral k) n = be_bytes (pred_numeral k) (n div 256) @ [of_nat (n mod 256)]"
  by (subst numeral_eq_Suc) simp

lemma read_ffab_index_table_loop_numeral:
  "read_ffab_index_table_loop f (numeral k) =
     (case unpack_QI (take 12 f) of
        Inl e \<Rightarrow> Inl e
      | Inr (offset, data_length) \<Rightarrow>
          (case read_ffab_index_table_loop (drop 12 f) (pred_numeral k) of
             Inl e \<Rightarrow> Inl e
           | Inr index_entries \<Rightarrow> Inr ((offset, data_length) # index_entries)))"
  by (subst numeral_eq_Suc) simp

subsection \<open>The index of a writer loop\<close>

lemma length_layout [simp]: "length (layout off ls) = length ls"
  by (induction ls arbitrary: off) simp_all

lemma layout_nth: "i < length ls \<Longrightarrow> layout off ls ! i = (off + sum_list (take i ls), ls ! i)"
proof (induction ls arbitrary: off i)
  case Nil
  then show ?case by simp
next
  case (Cons l ls)
  show ?case
  proof (cases i)
    case 0
    then show ?thesis by simp
  next
    case (Suc j)
    with Cons.prems have "j < length ls" by simp
    then have "layout (off + l) ls ! j = (off + l + sum_list (take j ls), ls ! j)"
      by (rule Cons.IH)
    with Suc show ?thesis by simp
  qed
qed

lemma sum_list_take_Suc:
  "i < length (ls :: nat list) \<Longrightarrow> sum_list (take (Suc i) ls) = sum_list (take i ls) + ls ! i"
  by (simp add: take_Suc_conv_app_nth)

lemma concat_slice:
  assumes "i < length bs"
  shows "take (length (bs ! i)) (drop (sum_list (map length (take i bs))) (concat bs)) = bs ! i"
proof -
  have "bs = take i bs @ bs ! i # drop (Suc i) bs"
    using assms by (rule id_take_nth_drop)
  then have "concat bs = concat (take i bs) @ bs ! i @ concat (drop (Suc i) bs)"
    by (metis concat.simps(2) concat_append)
  moreover have "length (concat (take i bs)) = sum_list (map length (take i bs))"
    by (simp add: length_concat)
  ultimately show ?thesis by simp
qed

lemma loop_index:
  "create_ffab_file_v1_loop c f q hdr off images = Inr (es, bs) \<Longrightarrow>
   length bs = length images \<and> length (concat es) = 12 * length images \<and>
   read_ffab_index_table_loop (concat es @ rest) (length images) = Inr (layout off (map length bs)) \<and>
   (\<forall>b\<in>set bs. length b < 2 ^ 32)"
proof (induction images arbitrary: off es bs)
  case Nil
  then show ?case by simp
next
  case (Cons p images)
  obtain name img where p: "p = (name, img)" by (cases p)
  from Cons.prems p obtain astc entry es' bs' where
    entry: "pack_QI off (length (drop 16 astc)) = Inr entry" and
    rest: "create_ffab_file_v1_loop c f q hdr (off + length (drop 16 astc)) images = Inr (es', bs')" and
    es: "es = entry # es'" and bs: "bs = drop 16 astc # bs'"
    by (auto simp: Let_def split: sum.splits if_splits prod.splits)
  from unpack_pack_QI [OF entry] have len: "length entry = 12"
    and un: "unpack_QI entry = Inr (off, length (drop 16 astc))" by simp_all
  from entry have lt: "length (drop 16 astc) < 2 ^ 32"
    by (simp add: pack_QI_def split: if_splits)
  from Cons.IH [OF rest] have
    IH: "length bs' = length images" "length (concat es') = 12 * length images"
      "read_ffab_index_table_loop (concat es' @ rest) (length images) =
         Inr (layout (off + length (drop 16 astc)) (map length bs'))"
      "\<forall>b\<in>set bs'. length b < 2 ^ 32"
    by simp_all
  show ?case
    using IH len un lt by (simp add: es bs)
qed

lemma loop_payloads:
  "create_ffab_file_v1_loop c f q hdr off images = Inr (es, bs) \<Longrightarrow>
   map (\<lambda>(name, img). c img f q) images = map (\<lambda>b. Inr (hdr @ b)) bs"
proof (induction images arbitrary: off es bs)
  case Nil
  then show ?case by simp
next
  case (Cons p images)
  obtain name img where p: "p = (name, img)" by (cases p)
  from Cons.prems p obtain astc entry es' bs' where
    astc: "c img f q = Inr astc" "take 16 astc = hdr" and
    rest: "create_ffab_file_v1_loop c f q hdr (off + length (drop 16 astc)) images = Inr (es', bs')" and
    bs: "bs = drop 16 astc # bs'"
    by (auto simp: Let_def split: sum.splits if_splits prod.splits)
  have "hdr @ drop 16 astc = astc"
    using astc(2) append_take_drop_id [of 16 astc] by simp
  with Cons.IH [OF rest] astc show ?case
    by (simp add: p bs)
qed

lemma tools_loop_index:
  "tools_create_ffab_file_v1_loop c f off images = Inr (es, bs) \<Longrightarrow>
   length bs = length images \<and> length (concat es) = 12 * length images \<and>
   read_ffab_index_table_loop (concat es @ rest) (length images) = Inr (layout off (map length bs)) \<and>
   (\<forall>b\<in>set bs. length b < 2 ^ 32)"
proof (induction images arbitrary: off es bs)
  case Nil
  then show ?case by simp
next
  case (Cons p images)
  obtain name img where p: "p = (name, img)" by (cases p)
  from Cons.prems p obtain data entry es' bs' where
    entry: "pack_QI off (length data) = Inr entry" and
    rest: "tools_create_ffab_file_v1_loop c f (off + length data) images = Inr (es', bs')" and
    es: "es = entry # es'" and bs: "bs = data # bs'"
    by (auto simp: Let_def split: sum.splits if_splits prod.splits)
  from unpack_pack_QI [OF entry] have len: "length entry = 12"
    and un: "unpack_QI entry = Inr (off, length data)" by simp_all
  from entry have lt: "length data < 2 ^ 32"
    by (simp add: pack_QI_def split: if_splits)
  from Cons.IH [OF rest] have
    IH: "length bs' = length images" "length (concat es') = 12 * length images"
      "read_ffab_index_table_loop (concat es' @ rest) (length images) =
         Inr (layout (off + length data) (map length bs'))"
      "\<forall>b\<in>set bs'. length b < 2 ^ 32"
    by simp_all
  show ?case
    using IH len un lt by (simp add: es bs)
qed

lemma tools_loop_payloads:
  "tools_create_ffab_file_v1_loop c f off images = Inr (es, bs) \<Longrightarrow>
   map (\<lambda>(name, img). c img f) images = map Inr bs"
proof (induction images arbitrary: off es bs)
  case Nil
  then show ?case by simp
next
  case (Cons p images)
  obtain name img where p: "p = (name, img)" by (cases p)
  from Cons.prems p obtain data entry es' bs' where
    data: "c img f = Inr data" and
    rest: "tools_create_ffab_file_v1_loop c f (off + length data) images = Inr (es', bs')" and
    bs: "bs = data # bs'"
    by (auto simp: Let_def split: sum.splits if_splits prod.splits)
  with Cons.IH [OF rest] show ?case
    by (simp add: p)
qed

subsection \<open>Reading a file laid out as header, meta, index, data\<close>

lemma create_ffab_file_v1_InrD:
  assumes "create_ffab_file_v1 c images f q = Inr file"
  obtains w h code header meta hdr es bs where
    "images \<noteq> []" "check_images_dimensions images = Inr (w, h)"
    "get_astc_format_code f = Inr code" "pack_HH FFAB_MAGIC 1 = Inr header"
    "pack_HHHH (length images) w h code = Inr meta"
    "enc_generate_astc_header w h f = Inr hdr"
    "create_ffab_file_v1_loop c f q hdr (4 + 8 + length images * 12) images = Inr (es, bs)"
    "file = header @ meta @ concat es @ concat bs"
  using assms
  by (auto simp: create_ffab_file_v1_def Let_def split: if_splits sum.splits prod.splits)

lemma tools_create_ffab_file_v1_InrD:
  assumes "tools_create_ffab_file_v1 c images f = Inr file"
  obtains w h code header meta es bs where
    "images \<noteq> []" "check_images_dimensions images = Inr (w, h)"
    "get_astc_format_code f = Inr code" "pack_HH FFAB_MAGIC FFAB_VERSION_0x0001 = Inr header"
    "pack_HHHH (length images) w h code = Inr meta"
    "tools_create_ffab_file_v1_loop c f (4 + 8 + length images * 12) images = Inr (es, bs)"
    "file = header @ meta @ concat es @ concat bs"
  using assms
  by (auto simp: tools_create_ffab_file_v1_def Let_def split: if_splits sum.splits prod.splits)

text \<open>What the reader finds in a file laid out as header, meta, index, data.\<close>

lemma sum_list_bounded:
  "\<forall>l\<in>set ls. l < (B :: nat) \<Longrightarrow> sum_list ls \<le> length ls * B"
  by (induction ls) auto

lemma read_laid_out_file:
  assumes header: "pack_HH FFAB_MAGIC FFAB_VERSION_0x0001 = Inr header"
    and meta: "pack_HHHH n w h code = Inr meta"
    and idx: "length bs = n" "length (concat es) = 12 * n"
      "read_ffab_index_table_loop (concat es @ concat bs) n = Inr (layout (4 + 8 + n * 12) (map length bs))"
    and fl: "file = header @ meta @ concat es @ concat bs"
    and small: "\<forall>b\<in>set bs. length b < 2 ^ 32"
  shows "read_ffab_header file = Inr FFAB_VERSION_0x0001"
    and "read_ffab_meta file = Inr (n, w, h, code)"
    and "read_ffab_index_table file n = Inr (layout (4 + 8 + n * 12) (map length bs))"
    and "length file = 4 + 8 + n * 12 + sum_list (map length bs)"
    and "i < n \<Longrightarrow> read_compressed_image_data file
           (fst (layout (4 + 8 + n * 12) (map length bs) ! i))
           (snd (layout (4 + 8 + n * 12) (map length bs) ! i)) = Inr (bs ! i)"
proof -
  from unpack_pack_HH [OF header] have h4: "length header = 4"
    and hu: "unpack_HH header = Inr (FFAB_MAGIC, FFAB_VERSION_0x0001)" by simp_all
  from unpack_pack_HHHH [OF meta] have m8: "length meta = 8"
    and mu: "unpack_HHHH meta = Inr (n, w, h, code)" by simp_all
  show "read_ffab_header file = Inr FFAB_VERSION_0x0001"
    using h4 hu by (simp add: read_ffab_header_def fl)
  show "read_ffab_meta file = Inr (n, w, h, code)"
    using h4 m8 mu by (simp add: read_ffab_meta_def fl)
  show "read_ffab_index_table file n = Inr (layout (4 + 8 + n * 12) (map length bs))"
    using h4 m8 idx(3) by (simp add: read_ffab_index_table_def fl)
  show "length file = 4 + 8 + n * 12 + sum_list (map length bs)"
    using h4 m8 idx(2) by (simp add: fl length_concat)
  show "read_compressed_image_data file
           (fst (layout (4 + 8 + n * 12) (map length bs) ! i))
           (snd (layout (4 + 8 + n * 12) (map length bs) ! i)) = Inr (bs ! i)" if "i < n"
  proof -
    have i: "i < length bs" using that idx(1) by simp
    let ?off = "4 + 8 + n * 12 + sum_list (map length (take i bs))"
    from meta have n: "n < 65536"
      by (simp add: pack_HHHH_def split: if_splits)
    have "\<forall>l\<in>set (map length (take i bs)). l < 2 ^ 32"
      using small by (auto dest: in_set_takeD)
    then have "sum_list (map length (take i bs)) \<le> length (map length (take i bs)) * 2 ^ 32"
      by (rule sum_list_bounded)
    also have "\<dots> \<le> 65536 * 2 ^ 32"
      using i n idx(1) by simp
    finally have off: "?off < 2 ^ 63"
      using n by simp
    have "length (bs ! i) < 2 ^ 32"
      using small i by simp
    also have "(2 :: nat) ^ 32 < 2 ^ 63" by simp
    finally have len: "length (bs ! i) < 2 ^ 63" .
    have "drop ?off file = drop (sum_list (map length (take i bs))) (concat bs)"
      using h4 m8 idx(2) by (simp add: fl)
    then have "take (length (bs ! i)) (drop ?off file) = bs ! i"
      using concat_slice [OF i] by simp
    moreover have "\<not> 2 ^ 63 \<le> ?off" "\<not> 2 ^ 63 \<le> length (bs ! i)"
      using off len by simp_all
    ultimately show ?thesis
      using i by (simp add: read_compressed_image_data_def layout_nth take_map)
  qed
qed

subsection \<open>Format names and the ASTC header\<close>

lemma split_not_Nil [simp]: "split sep s \<noteq> []"
  by (induction s) (auto split: list.splits)

lemma split_single: "split sep s = [b] \<Longrightarrow> s = b"
  by (induction s arbitrary: b) (auto split: if_splits list.splits)

lemma split_two: "split sep s = [a, b] \<Longrightarrow> s = a @ sep # b"
  by (induction s arbitrary: a) (auto split: if_splits list.splits dest: split_single)

lemma lower_char_digit: "is_digit c \<Longrightarrow> lower_char c = c"
  by (simp add: is_digit_def lower_char_def Let_def)

lemma lower_digits: "list_all is_digit s \<Longrightarrow> lower s = s"
  by (induction s) (simp_all add: lower_def lower_char_digit)

lemma py_int_digits: "py_int s = Inr n \<Longrightarrow> list_all is_digit s"
  by (simp add: py_int_def split: if_splits)

lemma lower_append: "lower (a @ b) = lower a @ lower b"
  by (simp add: lower_def)

lemma lower_Cons: "lower (c # s) = lower_char c # lower s"
  by (simp add: lower_def)

lemma generate_astc_header_lower:
  assumes "enc_generate_astc_header w h f = Inr hdr"
  shows "lower f = f"
proof -
  from assms obtain sx sy bx "by" where
    sp: "split (CHR ''x'') f = [sx, sy]" and "py_int sx = Inr bx" "py_int sy = Inr by"
    by (auto simp: enc_generate_astc_header_def split: list.splits sum.splits)
  then have "lower sx = sx" "lower sy = sy"
    by (simp_all add: lower_digits py_int_digits)
  moreover have "f = sx @ CHR ''x'' # sy"
    using sp by (rule split_two)
  moreover have "lower_char (CHR ''x'') = CHR ''x''"
    by (simp add: lower_char_def)
  ultimately show ?thesis
    by (simp add: lower_append lower_Cons)
qed

lemma and_255_less: "(w :: nat) AND 0xFF < 256"
proof -
  have "w AND mask 8 = take_bit 8 w"
    by (simp add: take_bit_eq_mask)
  moreover have "(mask 8 :: nat) = 0xFF"
    by (simp add: mask_eq_exp_minus_1)
  moreover have "take_bit 8 w < (256 :: nat)"
    by (simp add: take_bit_eq_mod)
  ultimately show ?thesis by simp
qed

lemma items_distinct: "distinct (map fst (rev ASTC_FORMAT_CODES_items))"
  by (simp add: ASTC_FORMAT_CODES_items_def)

lemma ASTC_FORMAT_CODES_iff:
  "ASTC_FORMAT_CODES f = Some c \<longleftrightarrow> (f, c) \<in> set ASTC_FORMAT_CODES_items"
  using map_of_eq_Some_iff [OF items_distinct, of f c]
  by (simp add: ASTC_FORMAT_CODES_def dict_of_def)

lemma items_cases:
  assumes "(f, c) \<in> set ASTC_FORMAT_CODES_items"
  shows "(f, c) \<in> {(''4x4'', 1), (''5x4'', 2), (''5x5'', 3), (''6x5'', 4), (''6x6'', 5),
      (''8x5'', 6), (''8x6'', 7), (''8x8'', 8), (''10x5'', 9), (''10x6'', 10), (''10x8'', 11),
      (''10x10'', 12), (''12x10'', 13), (''12x12'', 14)}"
  using assms by (simp add: ASTC_FORMAT_CODES_items_def)


lemma code_items_distinct:
  "distinct (map fst (rev (map (\<lambda>(k, v). (v, k)) ASTC_FORMAT_CODES_items)))"
  by (simp add: ASTC_FORMAT_CODES_items_def)

lemma ASTC_CODE_TO_FORMAT_iff:
  "ASTC_CODE_TO_FORMAT c = Some f \<longleftrightarrow> (f, c) \<in> set ASTC_FORMAT_CODES_items"
proof -
  have "(c, f) \<in> set (rev (map (\<lambda>(k, v). (v, k)) ASTC_FORMAT_CODES_items)) \<longleftrightarrow>
        (f, c) \<in> set ASTC_FORMAT_CODES_items"
    by force
  then show ?thesis
    using map_of_eq_Some_iff [OF code_items_distinct, of c f]
    by (simp add: ASTC_CODE_TO_FORMAT_def dict_of_def)
qed

lemma table_name_blocks:
  assumes "(f, c) \<in> set ASTC_FORMAT_CODES_items"
  shows "\<exists>sx sy bx by. split (CHR ''x'') f = [sx, sy] \<and> py_int sx = Inr bx \<and> py_int sy = Inr by
           \<and> bx < 256 \<and> by < 256"
  using items_cases [OF assms]
  by (elim insertE emptyE; simp add: py_int_def is_digit_def)

lemma code_range:
  "(\<exists>f. (f, c) \<in> set ASTC_FORMAT_CODES_items) \<longleftrightarrow> 1 \<le> c \<and> c \<le> 14"
proof
  assume "\<exists>f. (f, c) \<in> set ASTC_FORMAT_CODES_items"
  then obtain f where "(f, c) \<in> set ASTC_FORMAT_CODES_items" ..
  from items_cases [OF this] show "1 \<le> c \<and> c \<le> 14"
    by (elim insertE emptyE; simp)
next
  assume "1 \<le> c \<and> c \<le> 14"
  then have "c \<in> {1, 2, 3, 4, 5, 6, 7, 8, 9, 10, 11, 12, 13, 14}"
    by simp arith
  then show "\<exists>f. (f, c) \<in> set ASTC_FORMAT_CODES_items"
    by (elim insertE emptyE; simp add: ASTC_FORMAT_CODES_items_def)
qed

lemma generate_astc_header_same: "enc_generate_astc_header w h f = dec_generate_astc_header w h f"
  by (simp add: enc_generate_astc_header_def dec_generate_astc_header_def)

lemma enc_generate_astc_header_table:
  assumes "(f, c) \<in> set ASTC_FORMAT_CODES_items"
  shows "\<exists>hdr. enc_generate_astc_header w h f = Inr hdr \<and> length hdr = 16"
proof -
  from table_name_blocks [OF assms] obtain sx sy bx "by" where
    "split (CHR ''x'') f = [sx, sy]" "py_int sx = Inr bx" "py_int sy = Inr by" "bx < 256" "by < 256"
    by blast
  then show ?thesis
    by (simp add: enc_generate_astc_header_def pack_Bs_def and_255_less)
qed

lemma decode_loop_collect:
  assumes "dec_generate_astc_header w h f = Inr hdr"
  shows "decode_ffab_file_loop dcodec file w h f es =
         collect (map (\<lambda>(off, len). case read_compressed_image_data file off len of
                                        Inl e \<Rightarrow> Inl e
                                      | Inr d \<Rightarrow> dcodec (hdr @ d)) es)"
  using assms
  by (induction es) (auto simp: decode_astc_data_def split: sum.splits)

lemma get_astc_format_code_Inr:
  "get_astc_format_code f = Inr c \<longleftrightarrow> (lower f, c) \<in> set ASTC_FORMAT_CODES_items"
  by (auto simp: get_astc_format_code_def Let_def ASTC_FORMAT_CODES_iff [symmetric]
      split: option.splits)

subsection \<open>The example container\<close>

lemma example_written:
  "create_ffab_file_v1 example_astcenc example_images ''6x6'' () = Inr example_file"
  by (simp add: create_ffab_file_v1_def example_astcenc_def example_images_def example_file_def
      check_images_dimensions_def get_astc_format_code_def lower_def lower_char_def
      ASTC_FORMAT_CODES_def dict_of_def ASTC_FORMAT_CODES_items_def pack_HH_def pack_HHHH_def
      pack_QI_def enc_generate_astc_header_def py_int_def is_digit_def pack_Bs_def FFAB_MAGIC_def
      be_bytes_numeral Let_def)

lemma example_tools_written:
  "tools_create_ffab_file_v1 example_tools_astcenc example_images ''6x6'' = Inr example_tools_file"
  by (simp add: tools_create_ffab_file_v1_def example_tools_astcenc_def example_images_def
      example_tools_file_def check_images_dimensions_def get_astc_format_code_def lower_def
      lower_char_def ASTC_FORMAT_CODES_def dict_of_def ASTC_FORMAT_CODES_items_def pack_HH_def
      pack_HHHH_def pack_QI_def FFAB_MAGIC_def FFAB_VERSION_0x0001_def be_bytes_numeral Let_def)

subsection \<open>The index of a written file\<close>

lemma layout_contiguous:
  assumes "ls \<noteq> []"
  shows "fst (layout off ls ! 0) = off"
    and "\<forall>i. Suc i < length ls \<longrightarrow>
           fst (layout off ls ! Suc i) = fst (layout off ls ! i) + snd (layout off ls ! i)"
    and "fst (last (layout off ls)) + snd (last (layout off ls)) = off + sum_list ls"
proof -
  from assms obtain m where m: "length ls = Suc m"
    by (cases ls) auto
  show "fst (layout off ls ! 0) = off"
    using m by (simp add: layout_nth)
  show "\<forall>i. Suc i < length ls \<longrightarrow>
           fst (layout off ls ! Suc i) = fst (layout off ls ! i) + snd (layout off ls ! i)"
    by (simp add: layout_nth sum_list_take_Suc)
  have "layout off ls \<noteq> []"
    using m by (cases ls) auto
  then have "last (layout off ls) = layout off ls ! m"
    using m by (simp add: last_conv_nth)
  also have "\<dots> = (off + sum_list (take m ls), ls ! m)"
    using m by (simp add: layout_nth)
  finally have "fst (last (layout off ls)) + snd (last (layout off ls))
      = off + (sum_list (take m ls) + ls ! m)"
    by simp
  also have "sum_list (take m ls) + ls ! m = sum_list (take (Suc m) ls)"
    using m sum_list_take_Suc [of m ls] by linarith
  also have "take (Suc m) ls = ls"
    using m by simp
  finally show "fst (last (layout off ls)) + snd (last (layout off ls)) = off + sum_list ls" .
qed

lemma create_ffab_file_v1_index:
  assumes "create_ffab_file_v1 c images f q = Inr file"
  shows "\<exists>bs :: byte list list. images \<noteq> [] \<and> length bs = length images \<and>
           read_ffab_index_table file (length images)
             = Inr (layout (4 + 8 + length images * 12) (map length bs)) \<and>
           length file = 4 + 8 + length images * 12 + sum_list (map length bs)"
proof -
  from assms obtain w h code header meta hdr es bs where
    ne: "images \<noteq> []" and
    header: "pack_HH FFAB_MAGIC 1 = Inr header" and
    meta: "pack_HHHH (length images) w h code = Inr meta" and
    loop: "create_ffab_file_v1_loop c f q hdr (4 + 8 + length images * 12) images = Inr (es, bs)" and
    fl: "file = header @ meta @ concat es @ concat bs"
    by (rule create_ffab_file_v1_InrD)
  from header have header': "pack_HH FFAB_MAGIC FFAB_VERSION_0x0001 = Inr header"
    by (simp add: FFAB_VERSION_0x0001_def)
  note ix = loop_index [OF loop, of "concat bs"]
  note rd = read_laid_out_file [OF header' meta _ _ _ fl]
  have r3: "read_ffab_index_table file (length images)
          = Inr (layout (4 + 8 + length images * 12) (map length bs))"
    using ix by (intro rd(3)) simp_all
  have r4: "length file = 4 + 8 + length images * 12 + sum_list (map length bs)"
    using ix by (intro rd(4)) simp_all
  show ?thesis
    by (rule exI [of _ bs]) (use ne ix r3 r4 in simp)
qed

lemma tools_create_ffab_file_v1_index:
  assumes "tools_create_ffab_file_v1 c images f = Inr file"
  shows "\<exists>bs :: byte list list. images \<noteq> [] \<and> length bs = length images \<and>
           read_ffab_index_table file (length images)
             = Inr (layout (4 + 8 + length images * 12) (map length bs)) \<and>
           length file = 4 + 8 + length images * 12 + sum_list (map length bs)"
proof -
  from assms obtain w h code header meta es bs where
    ne: "images \<noteq> []" and
    header: "pack_HH FFAB_MAGIC FFAB_VERSION_0x0001 = Inr header" and
    meta: "pack_HHHH (length images) w h code = Inr meta" and
    loop: "tools_create_ffab_file_v1_loop c f (4 + 8 + length images * 12) images = Inr (es, bs)" and
    fl: "file = header @ meta @ concat es @ concat bs"
    by (rule tools_create_ffab_file_v1_InrD)
  note ix = tools_loop_index [OF loop, of "concat bs"]
  note rd = read_laid_out_file [OF header meta _ _ _ fl]
  have r3: "read_ffab_index_table file (length images)
          = Inr (layout (4 + 8 + length images * 12) (map length bs))"
    using ix by (intro rd(3)) simp_all
  have r4: "length file = 4 + 8 + length images * 12 + sum_list (map length bs)"
    using ix by (intro rd(4)) simp_all
  show ?thesis
    by (rule exI [of _ bs]) (use ne ix r3 r4 in simp)
qed

lemma layout_index_properties:
  assumes "images \<noteq> []" "length (bs :: byte list list) = length images"
    and "read_ffab_index_table file (length images)
             = Inr (layout (4 + 8 + length images * 12) (map length bs))"
    and "length file = 4 + 8 + length images * 12 + sum_list (map length bs)"
  shows "\<exists>index_entries.
           read_ffab_index_table file (length images) = Inr index_entries \<and>
           length index_entries = length images \<and>
           fst (index_entries ! 0) = 4 + 8 + 12 * length images \<and>
           (\<forall>i. Suc i < length images \<longrightarrow>
              fst (index_entries ! Suc i) = fst (index_entries ! i) + snd (index_entries ! i)) \<and>
           fst (last index_entries) + snd (last index_entries) = length file"
proof -
  let ?ls = "map length bs"
  let ?ix = "layout (4 + 8 + length images * 12) ?ls"
  from assms(1,2) have ne: "?ls \<noteq> []" by auto
  have len: "length ?ls = length images" using assms(2) by simp
  note c = layout_contiguous [OF ne, of "4 + 8 + length images * 12"]
  have "fst (?ix ! 0) = 4 + 8 + 12 * length images"
    using c(1) by simp
  moreover have "\<forall>i. Suc i < length images \<longrightarrow> fst (?ix ! Suc i) = fst (?ix ! i) + snd (?ix ! i)"
    using c(2) len by simp
  moreover have "fst (last ?ix) + snd (last ?ix) = length file"
    using c(3) assms(4) by simp
  ultimately show ?thesis
    using assms(3) len by simp
qed

subsection \<open>Header fields\<close>

lemma dec_generate_astc_header_table:
  assumes "(f, c) \<in> set ASTC_FORMAT_CODES_items"
  shows "\<exists>hdr. dec_generate_astc_header w h f = Inr hdr \<and> length hdr = 16"
  using enc_generate_astc_header_table [OF assms] by (simp add: generate_astc_header_same)

lemma take_2_bytes:
  assumes "2 \<le> length (buf :: byte list)"
  shows "be_nat (take 2 buf) = unat (buf ! 0) * 256 + unat (buf ! 1)"
proof -
  from assms obtain a b rest where "buf = a # b # rest"
    by (cases buf; cases "tl buf") auto
  then show ?thesis by (simp add: be_nat_def)
qed

lemma header_fields:
  assumes "4 \<le> length file"
  shows "unpack_HH (take 4 file) =
           Inr (unat (file ! 0) * 256 + unat (file ! 1), unat (file ! 2) * 256 + unat (file ! 3))"
proof -
  have "be_nat (take 2 (take 4 file)) = unat (file ! 0) * 256 + unat (file ! 1)"
    using assms take_2_bytes [of "take 4 file"] by simp
  moreover have "be_nat (take 2 (drop 2 (take 4 file))) = unat (file ! 2) * 256 + unat (file ! 3)"
    using assms take_2_bytes [of "drop 2 (take 4 file)"] by simp
  ultimately show ?thesis
    using assms by (simp add: unpack_HH_def)
qed

subsection \<open>The format table\<close>

lemma ASTC_CODE_TO_FORMAT_inverse:
  "ASTC_CODE_TO_FORMAT code = Some name \<longleftrightarrow> ASTC_FORMAT_CODES name = Some code"
  by (simp add: ASTC_CODE_TO_FORMAT_iff ASTC_FORMAT_CODES_iff)

lemma ASTC_CODE_TO_FORMAT_dom: "ASTC_CODE_TO_FORMAT code \<noteq> None \<longleftrightarrow> 1 \<le> code \<and> code \<le> 14"
  using code_range [of code] by (auto simp: ASTC_CODE_TO_FORMAT_iff)

lemma dom_codes: "dom ASTC_CODE_TO_FORMAT = {1..14}"
  using ASTC_CODE_TO_FORMAT_dom by (auto simp: dom_def)

lemma dom_names: "dom ASTC_FORMAT_CODES = fst ` set ASTC_FORMAT_CODES_items"
  by (simp add: ASTC_FORMAT_CODES_def dict_of_def dom_map_of_conv_image_fst)

lemma card_names: "card (dom ASTC_FORMAT_CODES) = 14"
proof -
  have "distinct (map fst ASTC_FORMAT_CODES_items)"
    using items_distinct by (simp add: rev_map [symmetric])
  then have "card (set (map fst ASTC_FORMAT_CODES_items)) = length (map fst ASTC_FORMAT_CODES_items)"
    by (rule distinct_card)
  then show ?thesis
    by (simp add: dom_names ASTC_FORMAT_CODES_items_def)
qed

lemma decode_ffab_file_unknown_code:
  assumes "read_ffab_header file = Inr v" "read_ffab_meta file = Inr (n, w, h, code)"
    "ASTC_CODE_TO_FORMAT code = None"
  shows "decode_ffab_file astcenc_dl file = Inl (UnknownFormatCode code)"
  using assms by (simp add: decode_ffab_file_def)

lemma get_astc_format_code_unknown:
  assumes "ASTC_FORMAT_CODES (lower name) = None"
  shows "get_astc_format_code name = Inl (InvalidFormatName (lower name))"
  using assms by (simp add: get_astc_format_code_def)

subsection \<open>Reading an index\<close>

lemma index_loop_reads:
  "12 * n \<le> length f \<Longrightarrow>
   \<exists>es. read_ffab_index_table_loop f n = Inr es \<and> length es = n \<and>
        (\<forall>i<n. es ! i = (be_nat (take 8 (drop (12 * i) f)), be_nat (take 4 (drop (12 * i + 8) f))))"
proof (induction n arbitrary: f)
  case 0
  then show ?case by simp
next
  case (Suc n)
  then have "12 * n \<le> length (drop 12 f)" by simp
  from Suc.IH [OF this] obtain es where
    es: "read_ffab_index_table_loop (drop 12 f) n = Inr es" "length es = n"
      "\<forall>i<n. es ! i = (be_nat (take 8 (drop (12 * i) (drop 12 f))),
                         be_nat (take 4 (drop (12 * i + 8) (drop 12 f))))"
    by blast
  let ?e = "(be_nat (take 8 f), be_nat (take 4 (drop 8 f)))"
  have len: "length (take 12 f) = 12" using Suc.prems by simp
  have "take 4 (drop 8 (take 12 f)) = take 4 (drop 8 f)"
    by (simp add: drop_take)
  then have un: "unpack_QI (take 12 f) = Inr ?e"
    using len by (simp add: unpack_QI_def)
  have r: "read_ffab_index_table_loop f (Suc n) = Inr (?e # es)"
    using un es(1) by simp
  have "(?e # es) ! i = (be_nat (take 8 (drop (12 * i) f)), be_nat (take 4 (drop (12 * i + 8) f)))"
    if "i < Suc n" for i
  proof (cases i)
    case 0
    then show ?thesis by simp
  next
    case (Suc j)
    with that have "j < n" by simp
    with es(3) have "es ! j = (be_nat (take 8 (drop (12 * j) (drop 12 f))),
                               be_nat (take 4 (drop (12 * j + 8) (drop 12 f))))"
      by simp
    then show ?thesis
      using Suc by (simp add: add.commute add.left_commute)
  qed
  with r es(2) show ?case by simp
qed

lemma index_loop_truncated:
  "length f < 12 * n \<Longrightarrow> read_ffab_index_table_loop f n = Inl StructError"
proof (induction n arbitrary: f)
  case 0
  then show ?case by simp
next
  case (Suc n)
  show ?case
  proof (cases "length f < 12")
    case True
    then have "unpack_QI (take 12 f) = Inl StructError"
      by (simp add: unpack_QI_def)
    then show ?thesis by simp
  next
    case False
    with Suc.prems have "length (drop 12 f) < 12 * n" by simp
    then have "read_ffab_index_table_loop (drop 12 f) n = Inl StructError"
      by (rule Suc.IH)
    then show ?thesis
      by (simp add: unpack_QI_def Let_def)
  qed
qed

lemma read_ffab_index_table_loop_1:
  "read_ffab_index_table_loop f 1 =
     (case unpack_QI (take 12 f) of
        Inl e \<Rightarrow> Inl e
      | Inr (offset, data_length) \<Rightarrow> Inr [(offset, data_length)])"
  by (simp add: Let_def split: sum.splits)

text \<open>The definitions a reader unfolds on a concrete file.\<close>

lemmas reader_defs =
  decode_ffab_file_def read_ffab_header_def read_ffab_meta_def unpack_HH_def
  unpack_HHHH_def FFAB_MAGIC_def FFAB_VERSION_0x0001_def ASTC_CODE_TO_FORMAT_def dict_of_def
  ASTC_FORMAT_CODES_items_def read_ffab_index_table_def
  read_ffab_index_table_loop_numeral unpack_QI_def be_nat_def decode_astc_data_def
  dec_generate_astc_header_def py_int_def is_digit_def pack_Bs_def
  read_compressed_image_data_def

subsection \<open>Meta fields\<close>

lemma u16_at_take:
  assumes "k + 2 \<le> length file"
  shows "be_nat (take 2 (drop k file)) = u16_at file k"
  using assms take_2_bytes [of "drop k file"] by (simp add: u16_at_def add.commute)

lemma meta_fields:
  assumes "12 \<le> length file"
  shows "unpack_HHHH (take 8 (drop 4 file)) =
           Inr (u16_at file 4, u16_at file 6, u16_at file 8, u16_at file 10)"
proof -
  have "be_nat (take 2 (take 8 (drop 4 file))) = u16_at file 4"
    using assms u16_at_take [of 4 "file"] by simp
  moreover have "be_nat (take 2 (drop 2 (take 8 (drop 4 file)))) = u16_at file 6"
    using assms u16_at_take [of 6 "file"] by (simp add: drop_take)
  moreover have "be_nat (take 2 (drop 4 (take 8 (drop 4 file)))) = u16_at file 8"
    using assms u16_at_take [of 8 "file"] by (simp add: drop_take)
  moreover have "be_nat (take 2 (drop 6 (take 8 (drop 4 file)))) = u16_at file 10"
    using assms u16_at_take [of 10 "file"] by (simp add: drop_take)
  ultimately show ?thesis
    using assms by (simp add: unpack_HHHH_def)
qed

subsection \<open>From the writer to the decoder\<close>

text \<open>The definitions the writer unfolds on a concrete input.\<close>

lemmas writer_defs =
  create_ffab_file_v1_def check_images_dimensions_def get_astc_format_code_def lower_def
  lower_char_def ASTC_FORMAT_CODES_def dict_of_def ASTC_FORMAT_CODES_items_def pack_HH_def
  pack_HHHH_def pack_QI_def enc_generate_astc_header_def py_int_def is_digit_def pack_Bs_def
  FFAB_MAGIC_def FFAB_VERSION_0x0001_def be_bytes_numeral Let_def

text \<open>
  What a file written by \<^verbatim>\<open>create_ffab_file_v1\<close> holds, and what \<^verbatim>\<open>decode_ffab_file\<close> does with it:
  the codec is handed, frame by frame, exactly the bytes the compressing codec produced.
\<close>

lemma created_file_contents:
  assumes "create_ffab_file_v1 c images f q = Inr file"
  obtains w h code hdr and bs :: "byte list list" where
    "check_images_dimensions images = Inr (w, h)"
    "enc_generate_astc_header w h f = Inr hdr"
    "length bs = length images"
    "map (\<lambda>(name, img). c img f q) images = map (\<lambda>b. Inr (hdr @ b)) bs"
    "read_ffab_header file = Inr FFAB_VERSION_0x0001"
    "read_ffab_meta file = Inr (length images, w, h, code)"
    "ASTC_CODE_TO_FORMAT code = Some f"
    "read_ffab_index_table file (length images)
       = Inr (layout (4 + 8 + length images * 12) (map length bs))"
    "\<forall>i<length images.
       read_compressed_image_data file
         (fst (layout (4 + 8 + length images * 12) (map length bs) ! i))
         (snd (layout (4 + 8 + length images * 12) (map length bs) ! i)) = Inr (bs ! i)"
proof -
  from assms obtain w h code header meta hdr es bs where
    dims: "check_images_dimensions images = Inr (w, h)" and
    code: "get_astc_format_code f = Inr code" and
    header: "pack_HH FFAB_MAGIC 1 = Inr header" and
    meta: "pack_HHHH (length images) w h code = Inr meta" and
    hdr: "enc_generate_astc_header w h f = Inr hdr" and
    loop: "create_ffab_file_v1_loop c f q hdr (4 + 8 + length images * 12) images = Inr (es, bs)" and
    fl: "file = header @ meta @ concat es @ concat bs"
    by (rule create_ffab_file_v1_InrD)
  from header have header': "pack_HH FFAB_MAGIC FFAB_VERSION_0x0001 = Inr header"
    by (simp add: FFAB_VERSION_0x0001_def)
  note ix = loop_index [OF loop, of "concat bs"]
  note rd = read_laid_out_file [OF header' meta _ _ _ fl]
  have r1: "read_ffab_header file = Inr FFAB_VERSION_0x0001"
    using ix by (intro rd(1)) simp_all
  have r2: "read_ffab_meta file = Inr (length images, w, h, code)"
    using ix by (intro rd(2)) simp_all
  have r3: "read_ffab_index_table file (length images)
              = Inr (layout (4 + 8 + length images * 12) (map length bs))"
    using ix by (intro rd(3)) simp_all
  have r5: "\<forall>i<length images.
       read_compressed_image_data file
         (fst (layout (4 + 8 + length images * 12) (map length bs) ! i))
         (snd (layout (4 + 8 + length images * 12) (map length bs) ! i)) = Inr (bs ! i)"
  proof (intro allI impI)
    fix i assume "i < length images"
    with ix show "read_compressed_image_data file
         (fst (layout (4 + 8 + length images * 12) (map length bs) ! i))
         (snd (layout (4 + 8 + length images * 12) (map length bs) ! i)) = Inr (bs ! i)"
      by (intro rd(5)) simp_all
  qed
  have "lower f = f"
    using hdr by (rule generate_astc_header_lower)
  with code have fmt: "ASTC_CODE_TO_FORMAT code = Some f"
    by (simp add: get_astc_format_code_Inr ASTC_CODE_TO_FORMAT_iff)
  from ix have lbs: "length bs = length images" by simp
  show thesis
    using that [OF dims hdr lbs loop_payloads [OF loop] r1 r2 fmt r3 r5] .
qed

lemma decode_created_file:
  assumes "create_ffab_file_v1 c images f q = Inr file"
  shows "decode_ffab_file astcenc_dl file =
           collect (map (\<lambda>(name, img). case c img f q of Inl e \<Rightarrow> Inl e
                                          | Inr astc \<Rightarrow> astcenc_dl astc) images)"
proof -
  from assms obtain w h code hdr and bs :: "byte list list" where
    hdr: "enc_generate_astc_header w h f = Inr hdr" and
    lbs: "length bs = length images" and
    pl: "map (\<lambda>(name, img). c img f q) images = map (\<lambda>b. Inr (hdr @ b)) bs" and
    r1: "read_ffab_header file = Inr FFAB_VERSION_0x0001" and
    r2: "read_ffab_meta file = Inr (length images, w, h, code)" and
    fmt: "ASTC_CODE_TO_FORMAT code = Some f" and
    r3: "read_ffab_index_table file (length images)
       = Inr (layout (4 + 8 + length images * 12) (map length bs))" and
    r5: "\<forall>i<length images.
       read_compressed_image_data file
         (fst (layout (4 + 8 + length images * 12) (map length bs) ! i))
         (snd (layout (4 + 8 + length images * 12) (map length bs) ! i)) = Inr (bs ! i)"
    by (rule created_file_contents)
  let ?ix = "layout (4 + 8 + length images * 12) (map length bs)"
  from hdr have dhdr: "dec_generate_astc_header w h f = Inr hdr"
    by (simp add: generate_astc_header_same)
  have "decode_ffab_file astcenc_dl file = decode_ffab_file_loop astcenc_dl file w h f ?ix"
    using r1 r2 fmt r3 by (simp add: decode_ffab_file_def)
  also have "\<dots> = collect (map (\<lambda>(off, len).
                        case read_compressed_image_data file off len of
                          Inl e \<Rightarrow> Inl e
                        | Inr d \<Rightarrow> astcenc_dl (hdr @ d)) ?ix)"
    by (rule decode_loop_collect [OF dhdr])
  also have "map (\<lambda>(off, len). case read_compressed_image_data file off len of
                                  Inl e \<Rightarrow> Inl e
                                | Inr d \<Rightarrow> astcenc_dl (hdr @ d)) ?ix
               = map (\<lambda>b. astcenc_dl (hdr @ b)) bs"
    using r5 lbs by (intro nth_equalityI) (simp_all add: case_prod_unfold)
  also have "map (\<lambda>b. astcenc_dl (hdr @ b)) bs
               = map (case_sum Inl astcenc_dl) (map (\<lambda>b. Inr (hdr @ b)) bs)"
    by simp
  also have "\<dots> = map (case_sum Inl astcenc_dl) (map (\<lambda>(name, img). c img f q) images)"
    by (simp only: pl)
  also have "\<dots> = map (\<lambda>(name, img). case c img f q of Inl e \<Rightarrow> Inl e
                                          | Inr astc \<Rightarrow> astcenc_dl astc) images"
    by (simp add: case_prod_unfold)
  finally show ?thesis .
qed

text \<open>The older writer stores, for each frame, the whole output of the codec.\<close>

lemma tools_stored_payload:
  assumes "tools_create_ffab_file_v1 c images f = Inr file"
  shows "\<exists>index_entries.
           read_ffab_index_table file (length images) = Inr index_entries \<and>
           length index_entries = length images \<and>
           (\<forall>i<length images.
              read_compressed_image_data file (fst (index_entries ! i)) (snd (index_entries ! i))
                = c (snd (images ! i)) f)"
proof -
  from assms obtain w h code header meta es bs where
    header: "pack_HH FFAB_MAGIC FFAB_VERSION_0x0001 = Inr header" and
    meta: "pack_HHHH (length images) w h code = Inr meta" and
    loop: "tools_create_ffab_file_v1_loop c f (4 + 8 + length images * 12) images = Inr (es, bs)" and
    fl: "file = header @ meta @ concat es @ concat bs"
    by (rule tools_create_ffab_file_v1_InrD)
  let ?ix = "layout (4 + 8 + length images * 12) (map length bs)"
  note ix = tools_loop_index [OF loop, of "concat bs"]
  note rd = read_laid_out_file [OF header meta _ _ _ fl]
  from ix have lbs: "length bs = length images" by simp
  have r3: "read_ffab_index_table file (length images) = Inr ?ix"
    using ix by (intro rd(3)) simp_all
  have "read_compressed_image_data file (fst (?ix ! i)) (snd (?ix ! i)) = c (snd (images ! i)) f"
    if i: "i < length images" for i
  proof -
    have "read_compressed_image_data file (fst (?ix ! i)) (snd (?ix ! i)) = Inr (bs ! i)"
      using ix i by (intro rd(5)) simp_all
    moreover have "map (\<lambda>(name, img). c img f) images ! i = map Inr bs ! i"
      using tools_loop_payloads [OF loop] by simp
    then have "c (snd (images ! i)) f = Inr (bs ! i)"
      using i lbs by (simp add: case_prod_unfold)
    ultimately show ?thesis by simp
  qed
  then show ?thesis
    using r3 lbs by (intro exI [of _ ?ix]) simp
qed

text \<open>
  When \<^verbatim>\<open>create_ffab_file_v1\<close> returns a file: the images are of one size, the format name is a
  key of the table, the count, width and height fit 16 bits, the codec answers each image
  with the expected header followed by a payload shorter than \<open>2 ^ 32\<close>, and the file stays
  below \<open>2 ^ 64\<close> bytes.
\<close>

lemma table_name_lower:
  assumes "(f, c) \<in> set ASTC_FORMAT_CODES_items"
  shows "lower f = f"
proof -
  from enc_generate_astc_header_table [OF assms, of 0 0] obtain hdr where
    "enc_generate_astc_header 0 0 f = Inr hdr" by blast
  then show ?thesis by (rule generate_astc_header_lower)
qed

lemma create_ffab_file_v1_loop_succeeds:
  assumes "length hdr = 16"
    and "\<forall>(name, img) \<in> set images. \<exists>b. c img f q = Inr (hdr @ b) \<and> length b < 2 ^ 32"
    and "off + sum_list (map (\<lambda>(name, img). case c img f q of Inl e \<Rightarrow> 0
                                | Inr astc \<Rightarrow> length astc - 16) images) < 2 ^ 64"
  shows "\<exists>es bs. create_ffab_file_v1_loop c f q hdr off images = Inr (es, bs)"
  using assms(2,3)
proof (induction images arbitrary: off)
  case Nil
  then show ?case by simp
next
  case (Cons p images)
  obtain name img where p: "p = (name, img)" by (cases p)
  from Cons.prems(1) p obtain b where b: "c img f q = Inr (hdr @ b)" "length b < 2 ^ 32"
    by auto
  have tk: "take 16 (hdr @ b) = hdr" "drop 16 (hdr @ b) = b"
    using assms(1) by simp_all
  from Cons.prems(2) p b assms(1) have
    tot: "off + length b + sum_list (map (\<lambda>(name, img). case c img f q of Inl e \<Rightarrow> 0
                                | Inr astc \<Rightarrow> length astc - 16) images) < 2 ^ 64"
    by simp
  then have "off < 2 ^ 64" by simp
  with b(2) obtain entry where entry: "pack_QI off (length b) = Inr entry"
    by (simp add: pack_QI_def)
  from Cons.prems(1) have "\<forall>(name, img) \<in> set images. \<exists>b. c img f q = Inr (hdr @ b) \<and> length b < 2 ^ 32"
    by simp
  from Cons.IH [OF this tot] obtain es bs where
    "create_ffab_file_v1_loop c f q hdr (off + length b) images = Inr (es, bs)"
    by blast
  then show ?case
    using p b tk entry by simp
qed

lemma create_ffab_file_v1_succeeds:
  assumes "images \<noteq> []"
    and "check_images_dimensions images = Inr (w, h)"
    and "ASTC_FORMAT_CODES f = Some code"
    and "length images < 65536" "w < 65536" "h < 65536"
    and "enc_generate_astc_header w h f = Inr hdr"
    and "\<forall>(name, img) \<in> set images. \<exists>b. c img f q = Inr (hdr @ b) \<and> length b < 2 ^ 32"
    and "4 + 8 + length images * 12 +
           sum_list (map (\<lambda>(name, img). case c img f q of Inl e \<Rightarrow> 0
                            | Inr astc \<Rightarrow> length astc - 16) images) < 2 ^ 64"
  shows "\<exists>file. create_ffab_file_v1 c images f q = Inr file"
proof -
  from assms(3) have it: "(f, code) \<in> set ASTC_FORMAT_CODES_items"
    by (simp add: ASTC_FORMAT_CODES_iff)
  then have "lower f = f" by (rule table_name_lower)
  with assms(3) have gc: "get_astc_format_code f = Inr code"
    by (simp add: get_astc_format_code_def)
  from it code_range [of code] have "code \<le> 14" by blast
  with assms(4-6) obtain meta where meta: "pack_HHHH (length images) w h code = Inr meta"
    by (simp add: pack_HHHH_def)
  obtain header where header: "pack_HH FFAB_MAGIC 1 = Inr header"
    by (simp add: pack_HH_def FFAB_MAGIC_def)
  from enc_generate_astc_header_table [OF it, of w h] assms(7) have "length hdr = 16"
    by simp
  from create_ffab_file_v1_loop_succeeds
    [where c = c and q = q and off = "4 + 8 + length images * 12", OF this assms(8,9)]
  obtain es bs where
    "create_ffab_file_v1_loop c f q hdr (4 + 8 + length images * 12) images = Inr (es, bs)"
    by blast
  then show ?thesis
    using assms(1,2,7) gc meta header by (simp add: create_ffab_file_v1_def)
qed

subsection \<open>An offset that \<^verbatim>\<open>seek\<close> refuses\<close>

text \<open>
  The file whose only entry has offset \<open>2 ^ 64 - 1\<close> is not decoded: \<^verbatim>\<open>f.seek\<close> raises before the
  codec is called.
\<close>

lemma decode_huge_offset_file:
  "read_ffab_index_table example_huge_offset_file 1 = Inr [(2 ^ 64 - 1, 3)] \<and>
   decode_ffab_file Inr example_huge_offset_file = Inl ValueError"
  by (simp add: reader_defs read_ffab_index_table_loop_1 example_huge_offset_file_def)

section \<open>The claims\<close>

text \<open>
  C1 (round trip). Whenever \<^verbatim>\<open>create_ffab_file_v1\<close> writes a container from a list of images,
  reading it back gives: a valid header; a meta block whose frame count is the number of
  images, whose width and height are the shared dimensions and whose format code maps back
  to the format name; an index of that many entries; and, for every \<open>i\<close> below the frame
  count, the bytes read at index entry \<open>i\<close> are exactly the payload stored for image \<open>i\<close>,
  that is the codec's output for it without its first 16 bytes.
\<close>

theorem container_roundtrip:
  assumes "create_ffab_file_v1 compress_with_astc images astc_format quality = Inr file"
  shows "\<exists>width height code index_entries.
           check_images_dimensions images = Inr (width, height) \<and>
           read_ffab_header file = Inr FFAB_VERSION_0x0001 \<and>
           read_ffab_meta file = Inr (length images, width, height, code) \<and>
           ASTC_CODE_TO_FORMAT code = Some astc_format \<and>
           read_ffab_index_table file (length images) = Inr index_entries \<and>
           length index_entries = length images \<and>
           (\<forall>i<length images. \<exists>astc_compressed_data.
              compress_with_astc (snd (images ! i)) astc_format quality = Inr astc_compressed_data \<and>
              read_compressed_image_data file (fst (index_entries ! i)) (snd (index_entries ! i))
                = Inr (drop 16 astc_compressed_data))"
proof -
  from assms obtain w h code hdr and bs :: "byte list list" where
    dims: "check_images_dimensions images = Inr (w, h)" and
    hdr: "enc_generate_astc_header w h astc_format = Inr hdr" and
    lbs: "length bs = length images" and
    pl: "map (\<lambda>(name, img). compress_with_astc img astc_format quality) images
           = map (\<lambda>b. Inr (hdr @ b)) bs" and
    r1: "read_ffab_header file = Inr FFAB_VERSION_0x0001" and
    r2: "read_ffab_meta file = Inr (length images, w, h, code)" and
    fmt: "ASTC_CODE_TO_FORMAT code = Some astc_format" and
    r3: "read_ffab_index_table file (length images)
           = Inr (layout (4 + 8 + length images * 12) (map length bs))" and
    r5: "\<forall>i<length images.
           read_compressed_image_data file
             (fst (layout (4 + 8 + length images * 12) (map length bs) ! i))
             (snd (layout (4 + 8 + length images * 12) (map length bs) ! i)) = Inr (bs ! i)"
    by (rule created_file_contents)
  let ?ix = "layout (4 + 8 + length images * 12) (map length bs)"
  from fmt have "(astc_format, code) \<in> set ASTC_FORMAT_CODES_items"
    by (simp add: ASTC_CODE_TO_FORMAT_iff)
  from enc_generate_astc_header_table [OF this, of w h] hdr have l16: "length hdr = 16"
    by simp
  have frames: "\<exists>astc. compress_with_astc (snd (images ! i)) astc_format quality = Inr astc \<and>
                  read_compressed_image_data file (fst (?ix ! i)) (snd (?ix ! i))
                    = Inr (drop 16 astc)"
    if i: "i < length images" for i
  proof -
    from pl have "map (\<lambda>(name, img). compress_with_astc img astc_format quality) images ! i
                    = map (\<lambda>b. Inr (hdr @ b)) bs ! i"
      by simp
    then have "compress_with_astc (snd (images ! i)) astc_format quality = Inr (hdr @ bs ! i)"
      using i lbs by (simp add: case_prod_unfold)
    moreover have "drop 16 (hdr @ bs ! i) = bs ! i"
      using l16 by simp
    ultimately show ?thesis
      using r5 i by simp
  qed
  show ?thesis
    by (rule exI [of _ w], rule exI [of _ h], rule exI [of _ code], rule exI [of _ ?ix])
      (use dims r1 r2 r3 fmt frames lbs in simp)
qed

theorem container_roundtrip_witness:
  "create_ffab_file_v1 example_astcenc example_images ''6x6'' () = Inr example_file \<and>
   (\<exists>width height code index_entries.
      check_images_dimensions example_images = Inr (width, height) \<and>
      read_ffab_header example_file = Inr FFAB_VERSION_0x0001 \<and>
      read_ffab_meta example_file = Inr (length example_images, width, height, code) \<and>
      ASTC_CODE_TO_FORMAT code = Some ''6x6'' \<and>
      read_ffab_index_table example_file (length example_images) = Inr index_entries \<and>
      length index_entries = length example_images \<and>
      (\<forall>i<length example_images. \<exists>astc_compressed_data.
         example_astcenc (snd (example_images ! i)) ''6x6'' () = Inr astc_compressed_data \<and>
         read_compressed_image_data example_file (fst (index_entries ! i)) (snd (index_entries ! i))
           = Inr (drop 16 astc_compressed_data)))"
proof -
  note w = example_written
  show ?thesis
    by (rule conjI [OF w container_roundtrip [OF w]])
qed

text \<open>
  C2 (offset determinism). In every container either writer produces (\<^verbatim>\<open>ffab_encoder.py\<close> and
  \<^verbatim>\<open>tools/ffab_encoder.py\<close>) from \<open>n\<close> images, the index has \<open>n\<close> entries, entry 0 has offset
  exactly \<open>4 + 8 + 12 * n\<close>, every later entry starts where its predecessor ends (offset plus
  length, so neither gaps nor overlaps), and the last entry ends at the end of the file.
\<close>

theorem offset_determinism:
  "(create_ffab_file_v1 compress_with_astc images astc_format quality = Inr file \<longrightarrow>
      (\<exists>index_entries.
         read_ffab_index_table file (length images) = Inr index_entries \<and>
         length index_entries = length images \<and>
         fst (index_entries ! 0) = 4 + 8 + 12 * length images \<and>
         (\<forall>i. Suc i < length images \<longrightarrow>
            fst (index_entries ! Suc i) = fst (index_entries ! i) + snd (index_entries ! i)) \<and>
         fst (last index_entries) + snd (last index_entries) = length file)) \<and>
   (tools_create_ffab_file_v1 tools_compress_with_astc images' astc_format' = Inr file' \<longrightarrow>
      (\<exists>index_entries.
         read_ffab_index_table file' (length images') = Inr index_entries \<and>
         length index_entries = length images' \<and>
         fst (index_entries ! 0) = 4 + 8 + 12 * length images' \<and>
         (\<forall>i. Suc i < length images' \<longrightarrow>
            fst (index_entries ! Suc i) = fst (index_entries ! i) + snd (index_entries ! i)) \<and>
         fst (last index_entries) + snd (last index_entries) = length file'))"
proof (intro conjI impI)
  assume "create_ffab_file_v1 compress_with_astc images astc_format quality = Inr file"
  from create_ffab_file_v1_index [OF this] obtain bs :: "byte list list" where
    "images \<noteq> []" "length bs = length images"
    "read_ffab_index_table file (length images)
       = Inr (layout (4 + 8 + length images * 12) (map length bs))"
    "length file = 4 + 8 + length images * 12 + sum_list (map length bs)"
    by blast
  then show "\<exists>index_entries.
         read_ffab_index_table file (length images) = Inr index_entries \<and>
         length index_entries = length images \<and>
         fst (index_entries ! 0) = 4 + 8 + 12 * length images \<and>
         (\<forall>i. Suc i < length images \<longrightarrow>
            fst (index_entries ! Suc i) = fst (index_entries ! i) + snd (index_entries ! i)) \<and>
         fst (last index_entries) + snd (last index_entries) = length file"
    by (rule layout_index_properties)
next
  assume "tools_create_ffab_file_v1 tools_compress_with_astc images' astc_format' = Inr file'"
  from tools_create_ffab_file_v1_index [OF this] obtain bs :: "byte list list" where
    "images' \<noteq> []" "length bs = length images'"
    "read_ffab_index_table file' (length images')
       = Inr (layout (4 + 8 + length images' * 12) (map length bs))"
    "length file' = 4 + 8 + length images' * 12 + sum_list (map length bs)"
    by blast
  then show "\<exists>index_entries.
         read_ffab_index_table file' (length images') = Inr index_entries \<and>
         length index_entries = length images' \<and>
         fst (index_entries ! 0) = 4 + 8 + 12 * length images' \<and>
         (\<forall>i. Suc i < length images' \<longrightarrow>
            fst (index_entries ! Suc i) = fst (index_entries ! i) + snd (index_entries ! i)) \<and>
         fst (last index_entries) + snd (last index_entries) = length file'"
    by (rule layout_index_properties)
qed

theorem offset_determinism_witness:
  "create_ffab_file_v1 example_astcenc example_images ''6x6'' () = Inr example_file \<and>
   tools_create_ffab_file_v1 example_tools_astcenc example_images ''6x6'' = Inr example_tools_file \<and>
   (\<exists>index_entries.
      read_ffab_index_table example_file (length example_images) = Inr index_entries \<and>
      length index_entries = length example_images \<and>
      fst (index_entries ! 0) = 4 + 8 + 12 * length example_images \<and>
      (\<forall>i. Suc i < length example_images \<longrightarrow>
         fst (index_entries ! Suc i) = fst (index_entries ! i) + snd (index_entries ! i)) \<and>
      fst (last index_entries) + snd (last index_entries) = length example_file) \<and>
   (\<exists>index_entries.
      read_ffab_index_table example_tools_file (length example_images) = Inr index_entries \<and>
      length index_entries = length example_images \<and>
      fst (index_entries ! 0) = 4 + 8 + 12 * length example_images \<and>
      (\<forall>i. Suc i < length example_images \<longrightarrow>
         fst (index_entries ! Suc i) = fst (index_entries ! i) + snd (index_entries ! i)) \<and>
      fst (last index_entries) + snd (last index_entries) = length example_tools_file)"
  using example_written example_tools_written
    offset_determinism [of example_astcenc example_images "''6x6''" "()" example_file
      example_tools_astcenc example_images "''6x6''" example_tools_file]
  by blast

text \<open>
  C6 (header rejection). On a file of at least four bytes, \<^verbatim>\<open>read_ffab_header\<close> (decoder and
  inspector alike) reads two big-endian 16-bit fields, magic and version; it fails with
  \<open>InvalidMagic\<close> exactly when the magic is not \<open>0xFFAB\<close>, with \<open>UnsupportedVersion\<close> exactly when
  the magic is right and the version is not \<open>0x0001\<close>, and succeeds otherwise: nothing else
  is looked at.
\<close>

theorem header_rejection:
  assumes "4 \<le> length file"
  shows "read_ffab_header file =
           (let magic = unat (file ! 0) * 256 + unat (file ! 1);
                version = unat (file ! 2) * 256 + unat (file ! 3)
            in if magic \<noteq> 0xFFAB then Inl InvalidMagic
               else if version \<noteq> 0x0001 then Inl (UnsupportedVersion version)
               else Inr version) \<and>
         info_read_ffab_header file =
           (let magic = unat (file ! 0) * 256 + unat (file ! 1);
                version = unat (file ! 2) * 256 + unat (file ! 3)
            in if magic \<noteq> 0xFFAB then Inl InvalidMagic
               else if version \<noteq> 0x0001 then Inl (UnsupportedVersion version)
               else Inr (magic, version))"
  using header_fields [OF assms]
  by (simp add: read_ffab_header_def info_read_ffab_header_def Let_def FFAB_MAGIC_def
      FFAB_VERSION_0x0001_def)

theorem header_rejection_witness:
  "4 \<le> length example_file \<and>
   read_ffab_header example_file = Inr 1 \<and>
   info_read_ffab_header example_file = Inr (0xFFAB, 1) \<and>
   read_ffab_header (0 # tl example_file) = Inl InvalidMagic \<and>
   read_ffab_header (example_file [3 := 2]) = Inl (UnsupportedVersion 2)"
proof -
  have l: "4 \<le> length example_file" "4 \<le> length (0 # tl example_file)"
    "4 \<le> length (example_file [3 := 2])"
    by (simp_all add: example_file_def)
  show ?thesis
    using l header_rejection [OF l(1)] header_rejection [OF l(2)] header_rejection [OF l(3)]
    by (simp add: example_file_def)
qed

text \<open>
  C10 (the two header generators agree). \<^verbatim>\<open>generate_astc_header\<close> of the encoder and of the
  decoder return the same result on every width, height and format string; on a format
  name of the table that result is a 16-byte header, so the header the writer strips is the
  one the reader regenerates.
\<close>

theorem generate_astc_header_agree:
  "enc_generate_astc_header width height astc_format
     = dec_generate_astc_header width height astc_format \<and>
   (ASTC_FORMAT_CODES astc_format \<noteq> None \<longrightarrow>
      (\<exists>astc_header.
         enc_generate_astc_header width height astc_format = Inr astc_header \<and>
         dec_generate_astc_header width height astc_format = Inr astc_header \<and>
         length astc_header = 16))"
proof (intro conjI impI)
  show "enc_generate_astc_header width height astc_format
          = dec_generate_astc_header width height astc_format"
    by (simp add: enc_generate_astc_header_def dec_generate_astc_header_def)
next
  assume "ASTC_FORMAT_CODES astc_format \<noteq> None"
  then obtain c where "(astc_format, c) \<in> set ASTC_FORMAT_CODES_items"
    by (auto simp: ASTC_FORMAT_CODES_iff)
  from enc_generate_astc_header_table [OF this, of width height]
  show "\<exists>astc_header.
         enc_generate_astc_header width height astc_format = Inr astc_header \<and>
         dec_generate_astc_header width height astc_format = Inr astc_header \<and>
         length astc_header = 16"
    by (auto simp: generate_astc_header_same)
qed

theorem generate_astc_header_agree_witness:
  "ASTC_FORMAT_CODES ''6x6'' \<noteq> None \<and>
   enc_generate_astc_header 100 100 ''6x6'' = dec_generate_astc_header 100 100 ''6x6'' \<and>
   (\<exists>astc_header.
      enc_generate_astc_header 100 100 ''6x6'' = Inr astc_header \<and>
      dec_generate_astc_header 100 100 ''6x6'' = Inr astc_header \<and>
      length astc_header = 16)"
proof -
  have "ASTC_FORMAT_CODES ''6x6'' \<noteq> None"
    by (simp add: ASTC_FORMAT_CODES_def dict_of_def ASTC_FORMAT_CODES_items_def)
  with generate_astc_header_agree [of 100 100 "''6x6''"] show ?thesis
    by blast
qed

text \<open>
  C9 (format-code closure). The two tables are inverse to each other: a code maps to a name
  exactly when the name maps to the code, so the 14 codes \<open>1 .. 14\<close> and the 14 names are in
  bijection (\<open>0x0001\<close> with \<open>4x4\<close>, \<open>0x0005\<close> with \<open>6x6\<close>, \<open>0x000E\<close> with \<open>12x12\<close>). A name whose
  lower-case form is not in the table is rejected by \<^verbatim>\<open>get_astc_format_code\<close>, and a file whose
  format code is outside \<open>1 .. 14\<close> is rejected by \<^verbatim>\<open>decode_ffab_file\<close>.
\<close>

theorem format_code_closure:
  "(ASTC_CODE_TO_FORMAT code = Some name \<longleftrightarrow> ASTC_FORMAT_CODES name = Some code) \<and>
   (ASTC_CODE_TO_FORMAT code \<noteq> None \<longleftrightarrow> 1 \<le> code \<and> code \<le> 14) \<and>
   card (dom ASTC_CODE_TO_FORMAT) = 14 \<and> card (dom ASTC_FORMAT_CODES) = 14 \<and>
   ASTC_CODE_TO_FORMAT 0x0001 = Some ''4x4'' \<and>
   ASTC_CODE_TO_FORMAT 0x0005 = Some ''6x6'' \<and>
   ASTC_CODE_TO_FORMAT 0x000E = Some ''12x12'' \<and>
   (ASTC_FORMAT_CODES (lower name) = None \<longrightarrow>
      get_astc_format_code name = Inl (InvalidFormatName (lower name))) \<and>
   (read_ffab_header file = Inr version \<and>
    read_ffab_meta file = Inr (image_count, width, height, code) \<and>
    \<not> (1 \<le> code \<and> code \<le> 14) \<longrightarrow>
      decode_ffab_file astcenc_dl file = Inl (UnknownFormatCode code))"
proof (intro conjI impI)
  show "ASTC_CODE_TO_FORMAT code = Some name \<longleftrightarrow> ASTC_FORMAT_CODES name = Some code"
    by (rule ASTC_CODE_TO_FORMAT_inverse)
  show "ASTC_CODE_TO_FORMAT code \<noteq> None \<longleftrightarrow> 1 \<le> code \<and> code \<le> 14"
    by (rule ASTC_CODE_TO_FORMAT_dom)
  show "card (dom ASTC_CODE_TO_FORMAT) = 14"
    by (simp add: dom_codes)
  show "card (dom ASTC_FORMAT_CODES) = 14"
    by (rule card_names)
  show "ASTC_CODE_TO_FORMAT 0x0001 = Some ''4x4''"
    by (simp add: ASTC_CODE_TO_FORMAT_iff ASTC_FORMAT_CODES_items_def)
  show "ASTC_CODE_TO_FORMAT 0x0005 = Some ''6x6''"
    by (simp add: ASTC_CODE_TO_FORMAT_iff ASTC_FORMAT_CODES_items_def)
  show "ASTC_CODE_TO_FORMAT 0x000E = Some ''12x12''"
    by (simp add: ASTC_CODE_TO_FORMAT_iff ASTC_FORMAT_CODES_items_def)
next
  assume "ASTC_FORMAT_CODES (lower name) = None"
  then show "get_astc_format_code name = Inl (InvalidFormatName (lower name))"
    by (rule get_astc_format_code_unknown)
next
  assume a: "read_ffab_header file = Inr version \<and>
    read_ffab_meta file = Inr (image_count, width, height, code) \<and>
    \<not> (1 \<le> code \<and> code \<le> 14)"
  then have "ASTC_CODE_TO_FORMAT code = None"
    using ASTC_CODE_TO_FORMAT_dom [of code] by blast
  with a show "decode_ffab_file astcenc_dl file = Inl (UnknownFormatCode code)"
    by (simp add: decode_ffab_file_unknown_code)
qed

theorem format_code_closure_witness:
  "ASTC_FORMAT_CODES (lower ''7x7'') = None \<and>
   get_astc_format_code ''7x7'' = Inl (InvalidFormatName ''7x7'') \<and>
   read_ffab_header example_unknown_code_file = Inr 1 \<and>
   read_ffab_meta example_unknown_code_file = Inr (1, 100, 100, 255) \<and>
   \<not> (1 \<le> (255 :: nat) \<and> (255 :: nat) \<le> 14) \<and>
   decode_ffab_file Inr example_unknown_code_file = Inl (UnknownFormatCode 255) \<and>
   ASTC_CODE_TO_FORMAT 5 = Some ''6x6'' \<and> ASTC_FORMAT_CODES ''6x6'' = Some 5"
proof -
  have n: "ASTC_FORMAT_CODES (lower ''7x7'') = None"
    by (simp add: lower_def lower_char_def ASTC_FORMAT_CODES_def dict_of_def
        ASTC_FORMAT_CODES_items_def)
  have l: "lower ''7x7'' = ''7x7''"
    by (simp add: lower_def lower_char_def)
  have h: "read_ffab_header example_unknown_code_file = Inr 1"
    by (simp add: read_ffab_header_def example_unknown_code_file_def unpack_HH_def be_nat_def
        FFAB_MAGIC_def FFAB_VERSION_0x0001_def)
  have m: "read_ffab_meta example_unknown_code_file = Inr (1, 100, 100, 255)"
    by (simp add: read_ffab_meta_def example_unknown_code_file_def unpack_HHHH_def be_nat_def)
  note t = format_code_closure [of 255 "''7x7''" example_unknown_code_file 1 1 100 100 Inr]
  note t' = format_code_closure [of 5 "''6x6''" example_unknown_code_file 1 1 100 100 Inr]
  have "ASTC_CODE_TO_FORMAT 5 = Some ''6x6''" using t' by blast
  moreover from this have "ASTC_FORMAT_CODES ''6x6'' = Some 5" using t' by blast
  ultimately show ?thesis
    using n l h m t by simp
qed

text \<open>
  C3 (index validation), as the code has it. The reader has no validation pass. Once the
  header is valid, the format code known and the file long enough to hold the index,
  \<^verbatim>\<open>read_ffab_index_table\<close> returns the entries exactly as stored, whatever their values, and
  \<^verbatim>\<open>decode_ffab_file\<close> goes through them in order: at an entry whose offset is \<open>2 ^ 63\<close> or more
  \<^verbatim>\<open>f.seek\<close> raises \<^verbatim>\<open>ValueError\<close>; at any other entry the codec is handed the regenerated header
  followed by the bytes found at the declared offset and length. Decoding fails at the
  first entry where one of the two fails, and in no other way.
\<close>

theorem index_not_validated:
  assumes "read_ffab_header file = Inr version"
    and "read_ffab_meta file = Inr (image_count, width, height, code)"
    and "ASTC_CODE_TO_FORMAT code = Some astc_format"
    and "12 + 12 * image_count \<le> length file"
  shows "\<exists>index_entries astc_header.
           read_ffab_index_table file image_count = Inr index_entries \<and>
           length index_entries = image_count \<and>
           (\<forall>i<image_count.
              index_entries ! i = (be_nat (take 8 (drop (12 + 12 * i) file)),
                                   be_nat (take 4 (drop (20 + 12 * i) file)))) \<and>
           dec_generate_astc_header width height astc_format = Inr astc_header \<and>
           decode_ffab_file astcenc_dl file =
             collect (map (\<lambda>(offset, data_length).
                        if 2 ^ 63 \<le> offset then Inl ValueError
                        else astcenc_dl (astc_header @ take data_length (drop offset file)))
                      index_entries)"
proof -
  from assms(4) have "12 * image_count \<le> length (drop 12 file)" by simp
  from index_loop_reads [OF this] obtain es where
    es: "read_ffab_index_table_loop (drop 12 file) image_count = Inr es" "length es = image_count"
      "\<forall>i<image_count. es ! i = (be_nat (take 8 (drop (12 * i) (drop 12 file))),
                                   be_nat (take 4 (drop (12 * i + 8) (drop 12 file))))"
    by blast
  have r: "read_ffab_index_table file image_count = Inr es"
    using es(1) by (simp add: read_ffab_index_table_def)
  have nth: "\<forall>i<image_count. es ! i = (be_nat (take 8 (drop (12 + 12 * i) file)),
                                        be_nat (take 4 (drop (20 + 12 * i) file)))"
    using es(3) by (simp add: add.commute add.left_commute)
  from assms(3) have "(astc_format, code) \<in> set ASTC_FORMAT_CODES_items"
    by (simp add: ASTC_CODE_TO_FORMAT_iff)
  from dec_generate_astc_header_table [OF this, of width height] obtain hdr where
    hdr: "dec_generate_astc_header width height astc_format = Inr hdr"
    by blast
  have small: "snd e < 2 ^ 63" if "e \<in> set es" for e
  proof -
    from that es(2) obtain i where "i < image_count" "es ! i = e"
      by (auto simp: in_set_conv_nth)
    with nth have "snd e = be_nat (take 4 (drop (20 + 12 * i) file))"
      by auto
    also have "\<dots> < 2 ^ 32" by (rule be_nat_take_4)
    also have "(2 :: nat) ^ 32 < 2 ^ 63" by simp
    finally show ?thesis .
  qed
  have same: "map (\<lambda>(offset, data_length).
                 case read_compressed_image_data file offset data_length of
                   Inl e \<Rightarrow> Inl e
                 | Inr d \<Rightarrow> astcenc_dl (hdr @ d)) es
            = map (\<lambda>(offset, data_length).
                 if 2 ^ 63 \<le> offset then Inl ValueError
                 else astcenc_dl (hdr @ take data_length (drop offset file))) es"
  proof (rule map_cong [OF refl])
    fix e assume "e \<in> set es"
    from small [OF this] have "\<not> 2 ^ 63 \<le> snd e" by simp
    then show
      "(case e of (offset, data_length) \<Rightarrow>
          case read_compressed_image_data file offset data_length of
            Inl e \<Rightarrow> Inl e
          | Inr d \<Rightarrow> astcenc_dl (hdr @ d))
       = (case e of (offset, data_length) \<Rightarrow>
            if 2 ^ 63 \<le> offset then Inl ValueError
            else astcenc_dl (hdr @ take data_length (drop offset file)))"
      by (cases e) (simp add: read_compressed_image_data_def)
  qed
  have "decode_ffab_file astcenc_dl file =
          decode_ffab_file_loop astcenc_dl file width height astc_format es"
    using assms(1-3) r by (simp add: decode_ffab_file_def)
  also have "\<dots> = collect (map (\<lambda>(offset, data_length).
                        if 2 ^ 63 \<le> offset then Inl ValueError
                        else astcenc_dl (hdr @ take data_length (drop offset file))) es)"
    using decode_loop_collect [OF hdr, of astcenc_dl "file" es]
    by (simp only: same)
  finally show ?thesis
    using r es(2) nth hdr by (intro exI [of _ es] exI [of _ hdr]) simp
qed

theorem index_not_validated_witness:
  "read_ffab_header example_gap_file = Inr 1 \<and>
   read_ffab_meta example_gap_file = Inr (1, 100, 100, 5) \<and>
   ASTC_CODE_TO_FORMAT 5 = Some ''6x6'' \<and>
   12 + 12 * 1 \<le> length example_gap_file \<and>
   (\<exists>index_entries astc_header.
      read_ffab_index_table example_gap_file 1 = Inr index_entries \<and>
      length index_entries = 1 \<and>
      (\<forall>i<1. index_entries ! i = (be_nat (take 8 (drop (12 + 12 * i) example_gap_file)),
                                  be_nat (take 4 (drop (20 + 12 * i) example_gap_file)))) \<and>
      dec_generate_astc_header 100 100 ''6x6'' = Inr astc_header \<and>
      decode_ffab_file Inr example_gap_file =
        collect (map (\<lambda>(offset, data_length).
                   if 2 ^ 63 \<le> offset then Inl ValueError
                   else Inr (astc_header @ take data_length (drop offset example_gap_file)))
                 index_entries))"
proof -
  have h: "read_ffab_header example_gap_file = Inr 1"
    by (simp add: reader_defs example_gap_file_def)
  have m: "read_ffab_meta example_gap_file = Inr (1, 100, 100, 5)"
    by (simp add: reader_defs example_gap_file_def)
  have c: "ASTC_CODE_TO_FORMAT 5 = Some ''6x6''"
    by (simp add: reader_defs)
  have l: "12 + 12 * 1 \<le> length example_gap_file"
    by (simp add: example_gap_file_def)
  from index_not_validated [OF h m c l, of Inr] show ?thesis
    using h m c l by blast
qed

text \<open>
  The claim as stated fails: in \<open>example_gap_file\<close> entry 0 starts at 25, not at
  \<open>4 + 8 + 12 * 1\<close>, and the file is decoded without error.
\<close>

theorem index_validation_counterexample:
  "read_ffab_header example_gap_file = Inr 1 \<and>
   read_ffab_meta example_gap_file = Inr (1, 100, 100, 5) \<and>
   read_ffab_index_table example_gap_file 1 = Inr [(25, 2)] \<and>
   (25 :: nat) \<noteq> 4 + 8 + 12 * 1 \<and>
   decode_ffab_file Inr example_gap_file =
     Inr [[0x13, 0xAB, 0xA1, 0x5C, 6, 6, 1, 100, 0, 0, 100, 0, 0, 1, 0, 0, 7, 7]]"
  by (simp add: reader_defs read_ffab_index_table_loop_1 example_gap_file_def)

text \<open>
  C4 (truncation), as the code has it. When a frame's declared range runs past the end of
  the file and its offset is below \<open>2 ^ 63\<close>, \<^verbatim>\<open>read_compressed_image_data\<close> returns the bytes
  that are left, fewer than declared, and raises nothing; at an offset of \<open>2 ^ 63\<close> or more
  \<^verbatim>\<open>f.seek\<close> raises \<^verbatim>\<open>ValueError\<close>. The header, the meta block and the index are read with
  \<^verbatim>\<open>struct.error\<close> exactly when the file is shorter than 4 bytes, than 12 bytes, and (for a
  frame count above zero) than \<open>12 + 12 * frame_count\<close> bytes; the meta block and the index
  are read without any other error.
\<close>

theorem truncation_not_detected:
  "(offset < 2 ^ 63 \<and> data_length < 2 ^ 32 \<longrightarrow>
      read_compressed_image_data file offset data_length
        = Inr (take data_length (drop offset file))) \<and>
   (offset < 2 ^ 63 \<and> 0 < data_length \<and> data_length < 2 ^ 32 \<and>
    length file < offset + data_length \<longrightarrow>
      read_compressed_image_data file offset data_length = Inr (drop offset file) \<and>
      length (drop offset file) = length file - offset \<and>
      length file - offset < data_length) \<and>
   (2 ^ 63 \<le> offset \<longrightarrow>
      read_compressed_image_data file offset data_length = Inl ValueError) \<and>
   (read_ffab_header file = Inl StructError \<longleftrightarrow> length file < 4) \<and>
   (read_ffab_meta file = Inl StructError \<longleftrightarrow> length file < 12) \<and>
   ((\<exists>e. read_ffab_meta file = Inl e) \<longleftrightarrow> length file < 12) \<and>
   (read_ffab_index_table file image_count = Inl StructError \<longleftrightarrow>
      0 < image_count \<and> length file < 12 + 12 * image_count) \<and>
   ((\<exists>e. read_ffab_index_table file image_count = Inl e) \<longleftrightarrow>
      0 < image_count \<and> length file < 12 + 12 * image_count)"
proof -
  have big: "(2 :: nat) ^ 32 < 2 ^ 63" by simp
  have c1: "read_compressed_image_data file offset data_length
              = Inr (take data_length (drop offset file))"
    if "offset < 2 ^ 63 \<and> data_length < 2 ^ 32"
  proof -
    from that big have "\<not> 2 ^ 63 \<le> offset" "\<not> 2 ^ 63 \<le> data_length"
      by simp_all
    then show ?thesis
      by (simp add: read_compressed_image_data_def)
  qed
  have c2: "read_compressed_image_data file offset data_length = Inr (drop offset file) \<and>
      length (drop offset file) = length file - offset \<and>
      length file - offset < data_length"
    if "offset < 2 ^ 63 \<and> 0 < data_length \<and> data_length < 2 ^ 32 \<and>
        length file < offset + data_length"
  proof -
    from that have le: "length file - offset < data_length" by arith
    then have "take data_length (drop offset file) = drop offset file" by simp
    with c1 that le show ?thesis by simp
  qed
  have c3: "read_compressed_image_data file offset data_length = Inl ValueError"
    if "2 ^ 63 \<le> offset"
    using that by (simp add: read_compressed_image_data_def)
  have h: "read_ffab_header file = Inl StructError \<longleftrightarrow> length file < 4"
    by (auto simp: read_ffab_header_def unpack_HH_def Let_def split: if_splits)
  have m: "read_ffab_meta file = Inl StructError \<longleftrightarrow> length file < 12"
    by (auto simp: read_ffab_meta_def unpack_HHHH_def Let_def split: if_splits)
  have m': "(\<exists>e. read_ffab_meta file = Inl e) \<longleftrightarrow> length file < 12"
    by (auto simp: read_ffab_meta_def unpack_HHHH_def Let_def split: if_splits)
  have short: "read_ffab_index_table file image_count = Inl StructError"
    if "0 < image_count \<and> length file < 12 + 12 * image_count"
  proof -
    from that have "length (drop 12 file) < 12 * image_count" by auto
    then show ?thesis
      by (simp add: read_ffab_index_table_def index_loop_truncated)
  qed
  have long: "\<exists>es. read_ffab_index_table file image_count = Inr es"
    if "\<not> (0 < image_count \<and> length file < 12 + 12 * image_count)"
  proof -
    from that have "12 * image_count \<le> length (drop 12 file)" by auto
    from index_loop_reads [OF this] show ?thesis
      by (auto simp: read_ffab_index_table_def)
  qed
  have i: "read_ffab_index_table file image_count = Inl StructError \<longleftrightarrow>
      0 < image_count \<and> length file < 12 + 12 * image_count"
    using short long by (metis Inl_Inr_False)
  have i': "(\<exists>e. read_ffab_index_table file image_count = Inl e) \<longleftrightarrow>
      0 < image_count \<and> length file < 12 + 12 * image_count"
    using short long by (metis Inl_Inr_False)
  show ?thesis
    using c1 c2 c3 h m m' i i' by blast
qed

theorem truncation_not_detected_witness:
  "(24 :: nat) < 2 ^ 63 \<and> (0 :: nat) < 10 \<and> (10 :: nat) < 2 ^ 32 \<and>
   length example_truncated_file < 24 + 10 \<and>
   read_compressed_image_data example_truncated_file 24 10
     = Inr (take 10 (drop 24 example_truncated_file)) \<and>
   read_compressed_image_data example_truncated_file 24 10
     = Inr (drop 24 example_truncated_file) \<and>
   length (drop 24 example_truncated_file) = length example_truncated_file - 24 \<and>
   length example_truncated_file - 24 < 10 \<and>
   (2 :: nat) ^ 63 \<le> 2 ^ 64 - 1 \<and>
   read_compressed_image_data example_huge_offset_file (2 ^ 64 - 1) 3 = Inl ValueError \<and>
   length (take 3 example_truncated_file) < 4 \<and>
   read_ffab_header (take 3 example_truncated_file) = Inl StructError \<and>
   length (take 8 example_truncated_file) < 12 \<and>
   read_ffab_meta (take 8 example_truncated_file) = Inl StructError \<and>
   (0 :: nat) < 1 \<and> length (take 20 example_truncated_file) < 12 + 12 * 1 \<and>
   read_ffab_index_table (take 20 example_truncated_file) 1 = Inl StructError"
proof -
  have l1: "(24 :: nat) < 2 ^ 63 \<and> (10 :: nat) < 2 ^ 32"
    and l2: "(24 :: nat) < 2 ^ 63 \<and> (0 :: nat) < 10 \<and> (10 :: nat) < 2 ^ 32 \<and>
             length example_truncated_file < 24 + 10"
    and l3: "(2 :: nat) ^ 63 \<le> 2 ^ 64 - 1"
    and l4: "length (take 3 example_truncated_file) < 4"
    and l5: "length (take 8 example_truncated_file) < 12"
    and l6: "(0 :: nat) < 1 \<and> length (take 20 example_truncated_file) < 12 + 12 * 1"
    by (simp_all add: example_truncated_file_def)
  note t = truncation_not_detected [of 24 10 example_truncated_file 1]
  from t have "(24 :: nat) < 2 ^ 63 \<and> (10 :: nat) < 2 ^ 32 \<longrightarrow>
      read_compressed_image_data example_truncated_file 24 10
        = Inr (take 10 (drop 24 example_truncated_file))"
    by (rule conjunct1)
  with l1 have a: "read_compressed_image_data example_truncated_file 24 10
             = Inr (take 10 (drop 24 example_truncated_file))"
    by (rule rev_mp)
  from t have "(24 :: nat) < 2 ^ 63 \<and> (0 :: nat) < 10 \<and> (10 :: nat) < 2 ^ 32 \<and>
             length example_truncated_file < 24 + 10 \<longrightarrow>
           read_compressed_image_data example_truncated_file 24 10
             = Inr (drop 24 example_truncated_file) \<and>
           length (drop 24 example_truncated_file) = length example_truncated_file - 24 \<and>
           length example_truncated_file - 24 < 10"
    by (rule conjunct2 [THEN conjunct1])
  with l2 have b: "read_compressed_image_data example_truncated_file 24 10
             = Inr (drop 24 example_truncated_file) \<and>
           length (drop 24 example_truncated_file) = length example_truncated_file - 24 \<and>
           length example_truncated_file - 24 < 10"
    by (rule rev_mp)
  from truncation_not_detected [of "2 ^ 64 - 1" 3 example_huge_offset_file 1]
  have "(2 :: nat) ^ 63 \<le> 2 ^ 64 - 1 \<longrightarrow>
      read_compressed_image_data example_huge_offset_file (2 ^ 64 - 1) 3 = Inl ValueError"
    by (rule conjunct2 [THEN conjunct2, THEN conjunct1])
  with l3 have c: "read_compressed_image_data example_huge_offset_file (2 ^ 64 - 1) 3
                     = Inl ValueError"
    by (rule rev_mp)
  from truncation_not_detected [of 24 10 "take 3 example_truncated_file" 1]
  have "read_ffab_header (take 3 example_truncated_file) = Inl StructError \<longleftrightarrow>
          length (take 3 example_truncated_file) < 4"
    by (rule conjunct2 [THEN conjunct2, THEN conjunct2, THEN conjunct1])
  with l4 have d: "read_ffab_header (take 3 example_truncated_file) = Inl StructError"
    by (rule rev_iffD2)
  from truncation_not_detected [of 24 10 "take 8 example_truncated_file" 1]
  have "read_ffab_meta (take 8 example_truncated_file) = Inl StructError \<longleftrightarrow>
          length (take 8 example_truncated_file) < 12"
    by (rule conjunct2 [THEN conjunct2, THEN conjunct2, THEN conjunct2, THEN conjunct1])
  with l5 have e: "read_ffab_meta (take 8 example_truncated_file) = Inl StructError"
    by (rule rev_iffD2)
  from truncation_not_detected [of 24 10 "take 20 example_truncated_file" 1]
  have "read_ffab_index_table (take 20 example_truncated_file) 1 = Inl StructError \<longleftrightarrow>
          0 < (1 :: nat) \<and> length (take 20 example_truncated_file) < 12 + 12 * 1"
    by (rule conjunct2 [THEN conjunct2, THEN conjunct2, THEN conjunct2, THEN conjunct2,
          THEN conjunct2, THEN conjunct1])
  with l6 have f: "read_ffab_index_table (take 20 example_truncated_file) 1 = Inl StructError"
    by (rule rev_iffD2)
  from b have b1: "read_compressed_image_data example_truncated_file 24 10
             = Inr (drop 24 example_truncated_file)"
    and b2: "length (drop 24 example_truncated_file) = length example_truncated_file - 24"
    and b3: "length example_truncated_file - 24 < 10"
    by blast+
  from l2 have m1: "(24 :: nat) < 2 ^ 63" and m2: "(0 :: nat) < 10" and m3: "(10 :: nat) < 2 ^ 32"
    and m4: "length example_truncated_file < 24 + 10"
    by blast+
  from l6 have n1: "(0 :: nat) < 1" and n2: "length (take 20 example_truncated_file) < 12 + 12 * 1"
    by blast+
  show ?thesis
    by (intro conjI) (fact m1 m2 m3 m4 a b1 b2 b3 l3 c l4 d l5 e n1 n2 f)+
qed

text \<open>
  The claim as stated fails: \<open>example_truncated_file\<close> has 27 bytes, its entry declares bytes
  24 to 34, three bytes are returned for the ten declared, and the file is decoded without
  error.
\<close>

theorem truncation_counterexample:
  "length example_truncated_file = 27 \<and>
   read_ffab_index_table example_truncated_file 1 = Inr [(24, 10)] \<and>
   read_compressed_image_data example_truncated_file 24 10 = Inr [7, 7, 7] \<and>
   decode_ffab_file Inr example_truncated_file =
     Inr [[0x13, 0xAB, 0xA1, 0x5C, 6, 6, 1, 100, 0, 0, 100, 0, 0, 1, 0, 0, 7, 7, 7]]"
  by (simp add: reader_defs read_ffab_index_table_loop_1 example_truncated_file_def)

text \<open>
  C7 (unknown format code), as the code has it. On a file of at least twelve bytes the meta
  block is read as four big-endian 16-bit fields, taken as they are. \<^verbatim>\<open>decode_ffab_file\<close> then
  fails with \<open>UnknownFormatCode\<close> when the format code is not in the table; the inspector's
  \<^verbatim>\<open>read_ffab_meta\<close> does not fail: it reports the code under a placeholder name.
\<close>

theorem meta_decoding:
  assumes "12 \<le> length file"
  shows "read_ffab_meta file = Inr (u16_at file 4, u16_at file 6, u16_at file 8, u16_at file 10) \<and>
         (read_ffab_header file = Inr version \<and> ASTC_CODE_TO_FORMAT (u16_at file 10) = None \<longrightarrow>
            decode_ffab_file astcenc_dl file = Inl (UnknownFormatCode (u16_at file 10))) \<and>
         info_read_ffab_meta file =
           Inr \<lparr>meta_image_count = u16_at file 4, meta_width = u16_at file 6,
                meta_height = u16_at file 8, meta_astc_format_code = u16_at file 10,
                meta_astc_format = (case ASTC_CODE_TO_FORMAT (u16_at file 10) of
                                      Some name \<Rightarrow> KnownName name
                                    | None \<Rightarrow> UnknownName (u16_at file 10))\<rparr>"
proof (intro conjI impI)
  show m: "read_ffab_meta file = Inr (u16_at file 4, u16_at file 6, u16_at file 8, u16_at file 10)"
    using meta_fields [OF assms] by (simp add: read_ffab_meta_def)
  show "info_read_ffab_meta file =
           Inr \<lparr>meta_image_count = u16_at file 4, meta_width = u16_at file 6,
                meta_height = u16_at file 8, meta_astc_format_code = u16_at file 10,
                meta_astc_format = (case ASTC_CODE_TO_FORMAT (u16_at file 10) of
                                      Some name \<Rightarrow> KnownName name
                                    | None \<Rightarrow> UnknownName (u16_at file 10))\<rparr>"
    using meta_fields [OF assms] by (simp add: info_read_ffab_meta_def)
  assume "read_ffab_header file = Inr version \<and> ASTC_CODE_TO_FORMAT (u16_at file 10) = None"
  with m show "decode_ffab_file astcenc_dl file = Inl (UnknownFormatCode (u16_at file 10))"
    by (simp add: decode_ffab_file_unknown_code)
qed

theorem meta_decoding_witness:
  "12 \<le> length example_unknown_code_file \<and>
   read_ffab_header example_unknown_code_file = Inr 1 \<and>
   u16_at example_unknown_code_file 10 = 255 \<and>
   ASTC_CODE_TO_FORMAT 255 = None \<and>
   read_ffab_meta example_unknown_code_file = Inr (1, 100, 100, 255) \<and>
   decode_ffab_file Inr example_unknown_code_file = Inl (UnknownFormatCode 255) \<and>
   info_read_ffab_meta example_unknown_code_file =
     Inr \<lparr>meta_image_count = 1, meta_width = 100, meta_height = 100,
          meta_astc_format_code = 255, meta_astc_format = UnknownName 255\<rparr>"
proof -
  have l: "12 \<le> length example_unknown_code_file"
    by (simp add: example_unknown_code_file_def)
  have h: "read_ffab_header example_unknown_code_file = Inr 1"
    by (simp add: reader_defs example_unknown_code_file_def)
  have u: "u16_at example_unknown_code_file 4 = 1" "u16_at example_unknown_code_file 6 = 100"
    "u16_at example_unknown_code_file 8 = 100" "u16_at example_unknown_code_file 10 = 255"
    by (simp_all add: u16_at_def example_unknown_code_file_def)
  have n: "ASTC_CODE_TO_FORMAT 255 = None"
    by (simp add: reader_defs)
  show ?thesis
    using l h u n meta_decoding [OF l, of 1 Inr] by simp
qed

text \<open>
  The claim as stated fails: the inspector reads the meta block of \<open>example_unknown_code_file\<close>,
  whose format code \<open>0x00FF\<close> is not in the table, without error.
\<close>

theorem unknown_format_code_counterexample:
  "ASTC_CODE_TO_FORMAT 255 = None \<and>
   info_read_ffab_header example_unknown_code_file = Inr (0xFFAB, 1) \<and>
   info_read_ffab_meta example_unknown_code_file =
     Inr \<lparr>meta_image_count = 1, meta_width = 100, meta_height = 100,
          meta_astc_format_code = 255, meta_astc_format = UnknownName 255\<rparr>"
  by (simp add: reader_defs info_read_ffab_header_def info_read_ffab_meta_def
      example_unknown_code_file_def)

text \<open>
  C8 (writer preconditions). \<^verbatim>\<open>create_ffab_file_v1\<close>, run with the encoder's own
  \<^verbatim>\<open>compress_with_astc\<close>, fails with \<open>EmptyFrameList\<close> on no image, and with \<open>InvalidFormatName\<close>
  on images of one size and a format name whose lower-case form is not in the table. On
  frames of width or height zero it fails too, provided PIL refuses to save an empty image:
  the writer has no test of its own on the dimensions, the failure is the exception PIL
  raises inside \<^verbatim>\<open>compress_with_astc\<close> on the first frame, unless the format name or a field
  range has made the writer fail before. In each of these cases the writer returns no file.
\<close>

theorem writer_preconditions:
  assumes "\<forall>img_data. fst (shape img_data) = 0 \<or> snd (shape img_data) = 0 \<longrightarrow>
                      (\<exists>e. pil_save_png img_data = Inl e)"
  shows "create_ffab_file_v1 (enc_compress_with_astc pil_save_png astcenc_cl) [] astc_format quality
           = Inl EmptyFrameList \<and>
         (images \<noteq> [] \<and> check_images_dimensions images = Inr (width, height) \<and>
          ASTC_FORMAT_CODES (lower astc_format) = None \<longrightarrow>
            create_ffab_file_v1 (enc_compress_with_astc pil_save_png astcenc_cl) images
              astc_format quality = Inl (InvalidFormatName (lower astc_format))) \<and>
         (images \<noteq> [] \<and> check_images_dimensions images = Inr (width, height) \<and>
          (width = 0 \<or> height = 0) \<longrightarrow>
            (\<exists>e. create_ffab_file_v1 (enc_compress_with_astc pil_save_png astcenc_cl) images
                    astc_format quality = Inl e)) \<and>
         (images \<noteq> [] \<and> check_images_dimensions images = Inr (width, height) \<and>
          (width = 0 \<or> height = 0) \<and> ASTC_FORMAT_CODES astc_format \<noteq> None \<and>
          length images < 65536 \<and> width < 65536 \<and> height < 65536 \<longrightarrow>
            (\<exists>e. pil_save_png (snd (hd images)) = Inl e \<and>
                 create_ffab_file_v1 (enc_compress_with_astc pil_save_png astcenc_cl) images
                   astc_format quality = Inl e))"
proof (intro conjI impI)
  let ?c = "enc_compress_with_astc pil_save_png astcenc_cl"
  show "create_ffab_file_v1 ?c [] astc_format quality = Inl EmptyFrameList"
    by (simp add: create_ffab_file_v1_def)
  have first: "\<exists>name img rest e. images = (name, img) # rest \<and> pil_save_png img = Inl e"
    if d: "images \<noteq> [] \<and> check_images_dimensions images = Inr (width, height) \<and>
           (width = 0 \<or> height = 0)"
  proof -
    from d obtain name img rest where im: "images = (name, img) # rest"
      by (cases images) auto
    with d have "shape img = (height, width)"
      by (auto simp: check_images_dimensions_def Let_def case_prod_unfold
          split: option.splits intro: prod_eqI)
    with d assms obtain e where "pil_save_png img = Inl e"
      by (metis fst_conv snd_conv)
    with im show ?thesis by blast
  qed
  {
    assume "images \<noteq> [] \<and> check_images_dimensions images = Inr (width, height) \<and>
      ASTC_FORMAT_CODES (lower astc_format) = None"
    then show "create_ffab_file_v1 ?c images astc_format quality
                 = Inl (InvalidFormatName (lower astc_format))"
      by (simp add: create_ffab_file_v1_def get_astc_format_code_unknown)
  }
  {
    assume d: "images \<noteq> [] \<and> check_images_dimensions images = Inr (width, height) \<and>
      (width = 0 \<or> height = 0)"
    from first [OF d] obtain name img rest e where
      im: "images = (name, img) # rest" and e: "pil_save_png img = Inl e"
      by blast
    show "\<exists>e. create_ffab_file_v1 ?c images astc_format quality = Inl e"
    proof (cases "create_ffab_file_v1 ?c images astc_format quality")
      case (Inl e')
      then show ?thesis by blast
    next
      case (Inr written)
      then obtain hdr es bs where
        "create_ffab_file_v1_loop ?c astc_format quality hdr (4 + 8 + length images * 12) images
           = Inr (es, bs)"
        by (rule create_ffab_file_v1_InrD)
      with im e show ?thesis
        by (simp add: enc_compress_with_astc_def)
    qed
  }
  {
    assume d: "images \<noteq> [] \<and> check_images_dimensions images = Inr (width, height) \<and>
      (width = 0 \<or> height = 0) \<and> ASTC_FORMAT_CODES astc_format \<noteq> None \<and>
      length images < 65536 \<and> width < 65536 \<and> height < 65536"
    then have "images \<noteq> [] \<and> check_images_dimensions images = Inr (width, height) \<and>
      (width = 0 \<or> height = 0)" by simp
    from first [OF this] obtain name img rest e where
      im: "images = (name, img) # rest" and e: "pil_save_png img = Inl e"
      by blast
    from d obtain code where it: "(astc_format, code) \<in> set ASTC_FORMAT_CODES_items"
      by (auto simp: ASTC_FORMAT_CODES_iff)
    then have "lower astc_format = astc_format" by (rule table_name_lower)
    with it have gc: "get_astc_format_code astc_format = Inr code"
      by (simp add: get_astc_format_code_def ASTC_FORMAT_CODES_iff [symmetric])
    from it code_range [of code] have "code \<le> 14" by blast
    with d obtain meta where meta: "pack_HHHH (length images) width height code = Inr meta"
      by (simp add: pack_HHHH_def)
    obtain header where header: "pack_HH FFAB_MAGIC 1 = Inr header"
      by (simp add: pack_HH_def FFAB_MAGIC_def)
    from enc_generate_astc_header_table [OF it, of width height] obtain hdr where
      hdr: "enc_generate_astc_header width height astc_format = Inr hdr"
      by blast
    have "create_ffab_file_v1_loop ?c astc_format quality hdr (4 + 8 + length images * 12) images
            = Inl e"
      using im e by (simp add: enc_compress_with_astc_def)
    then have "create_ffab_file_v1 ?c images astc_format quality = Inl e"
      using d gc meta header hdr by (simp add: create_ffab_file_v1_def)
    with im e show "\<exists>e. pil_save_png (snd (hd images)) = Inl e \<and>
                 create_ffab_file_v1 ?c images astc_format quality = Inl e"
      by simp
  }
qed

theorem writer_preconditions_witness:
  "create_ffab_file_v1 (enc_compress_with_astc example_pil_save_png example_astcenc_cl) []
     ''6x6'' () = Inl EmptyFrameList \<and>
   example_images \<noteq> [] \<and> check_images_dimensions example_images = Inr (100, 100) \<and>
   ASTC_FORMAT_CODES (lower ''7x7'') = None \<and>
   create_ffab_file_v1 (enc_compress_with_astc example_pil_save_png example_astcenc_cl)
     example_images ''7x7'' () = Inl (InvalidFormatName ''7x7'') \<and>
   [(''frame_0.png'', \<lparr>shape = (100, 0), pixels = []\<rparr>)] \<noteq> [] \<and>
   check_images_dimensions [(''frame_0.png'', \<lparr>shape = (100, 0), pixels = []\<rparr>)]
     = Inr (0, 100) \<and>
   ASTC_FORMAT_CODES ''6x6'' \<noteq> None \<and>
   create_ffab_file_v1 (enc_compress_with_astc example_pil_save_png example_astcenc_cl)
     [(''frame_0.png'', \<lparr>shape = (100, 0), pixels = []\<rparr>)] ''6x6'' () = Inl ImageError \<and>
   create_ffab_file_v1 (enc_compress_with_astc example_pil_save_png example_astcenc_cl)
     example_images ''6x6'' () = Inr example_file"
proof -
  have pil: "\<forall>img_data. fst (shape img_data) = 0 \<or> snd (shape img_data) = 0 \<longrightarrow>
                (\<exists>e. example_pil_save_png img_data = Inl e)"
    by (simp add: example_pil_save_png_def)
  have d: "check_images_dimensions example_images = Inr (100, 100)"
    "check_images_dimensions [(''frame_0.png'', \<lparr>shape = (100, 0), pixels = []\<rparr>)] = Inr (0, 100)"
    by (simp_all add: check_images_dimensions_def example_images_def)
  have ne: "example_images \<noteq> []"
    by (simp add: example_images_def)
  have n: "ASTC_FORMAT_CODES (lower ''7x7'') = None" "lower ''7x7'' = ''7x7''"
    "ASTC_FORMAT_CODES ''6x6'' \<noteq> None"
    by (simp_all add: lower_def lower_char_def ASTC_FORMAT_CODES_def dict_of_def
        ASTC_FORMAT_CODES_items_def)
  have ok: "create_ffab_file_v1 (enc_compress_with_astc example_pil_save_png example_astcenc_cl)
     example_images ''6x6'' () = Inr example_file"
    by (simp add: writer_defs enc_compress_with_astc_def example_pil_save_png_def
        example_astcenc_cl_def example_images_def example_file_def)
  note t1 = writer_preconditions [OF pil, of example_astcenc_cl "''7x7''" "()" example_images 100 100]
  note t2 = writer_preconditions [OF pil, of example_astcenc_cl "''6x6''" "()"
      "[(''frame_0.png'', \<lparr>shape = (100, 0), pixels = []\<rparr>)]" 0 100]
  from t1 have a: "create_ffab_file_v1 (enc_compress_with_astc example_pil_save_png example_astcenc_cl)
     [] ''7x7'' () = Inl EmptyFrameList" by blast
  have a': "create_ffab_file_v1 (enc_compress_with_astc example_pil_save_png example_astcenc_cl) []
     ''6x6'' () = Inl EmptyFrameList"
    using t2 by blast
  have b: "create_ffab_file_v1 (enc_compress_with_astc example_pil_save_png example_astcenc_cl)
     example_images ''7x7'' () = Inl (InvalidFormatName ''7x7'')"
    using t1 ne d(1) n(1,2) by simp
  from t2 d(2) n(3) obtain e where
    "example_pil_save_png (snd (hd [(''frame_0.png'', \<lparr>shape = (100, 0), pixels = []\<rparr>)])) = Inl e"
    "create_ffab_file_v1 (enc_compress_with_astc example_pil_save_png example_astcenc_cl)
       [(''frame_0.png'', \<lparr>shape = (100, 0), pixels = []\<rparr>)] ''6x6'' () = Inl e"
    by auto
  then have c: "create_ffab_file_v1 (enc_compress_with_astc example_pil_save_png example_astcenc_cl)
       [(''frame_0.png'', \<lparr>shape = (100, 0), pixels = []\<rparr>)] ''6x6'' () = Inl ImageError"
    by (simp add: example_pil_save_png_def)
  show ?thesis
    using a' ne d n b c ok by simp
qed

text \<open>
  C5 (preamble handling), at an input where the older writer departs from it. For the two
  example frames, \<^verbatim>\<open>tools/ffab_encoder.py\<close> stores the output of the codec whole, 16-byte ASTC
  header included (payloads of 19 and 18 bytes where the frames have 3 and 2), and
  \<^verbatim>\<open>decode_ffab_file\<close> then hands the codec each payload behind a second header. (For the
  encoder \<^verbatim>\<open>ffab_encoder.py\<close> the payload is stripped and the header regenerated:
  \<open>created_file_contents\<close> and \<open>decode_created_file\<close>.)
\<close>

theorem tools_writer_keeps_preamble:
  "tools_create_ffab_file_v1 example_tools_astcenc example_images ''6x6'' = Inr example_tools_file \<and>
   read_ffab_index_table example_tools_file 2 = Inr [(36, 19), (55, 18)] \<and>
   read_compressed_image_data example_tools_file 36 19 =
     Inr [0x13, 0xAB, 0xA1, 0x5C, 6, 6, 1, 100, 0, 0, 100, 0, 0, 1, 0, 0, 0, 0, 0] \<and>
   read_compressed_image_data example_tools_file 55 18 =
     Inr [0x13, 0xAB, 0xA1, 0x5C, 6, 6, 1, 100, 0, 0, 100, 0, 0, 1, 0, 0, 1, 1] \<and>
   decode_ffab_file Inr example_tools_file =
     Inr [[0x13, 0xAB, 0xA1, 0x5C, 6, 6, 1, 100, 0, 0, 100, 0, 0, 1, 0, 0,
           0x13, 0xAB, 0xA1, 0x5C, 6, 6, 1, 100, 0, 0, 100, 0, 0, 1, 0, 0, 0, 0, 0],
          [0x13, 0xAB, 0xA1, 0x5C, 6, 6, 1, 100, 0, 0, 100, 0, 0, 1, 0, 0,
           0x13, 0xAB, 0xA1, 0x5C, 6, 6, 1, 100, 0, 0, 100, 0, 0, 1, 0, 0, 1, 1]]"
proof -
  have "read_ffab_index_table example_tools_file 2 = Inr [(36, 19), (55, 18)]"
    by (simp add: reader_defs example_tools_file_def)
  moreover have "read_compressed_image_data example_tools_file 36 19 =
     Inr [0x13, 0xAB, 0xA1, 0x5C, 6, 6, 1, 100, 0, 0, 100, 0, 0, 1, 0, 0, 0, 0, 0]"
    by (simp add: reader_defs example_tools_file_def)
  moreover have "read_compressed_image_data example_tools_file 55 18 =
     Inr [0x13, 0xAB, 0xA1, 0x5C, 6, 6, 1, 100, 0, 0, 100, 0, 0, 1, 0, 0, 1, 1]"
    by (simp add: reader_defs example_tools_file_def)
  moreover have "decode_ffab_file Inr example_tools_file =
     Inr [[0x13, 0xAB, 0xA1, 0x5C, 6, 6, 1, 100, 0, 0, 100, 0, 0, 1, 0, 0,
           0x13, 0xAB, 0xA1, 0x5C, 6, 6, 1, 100, 0, 0, 100, 0, 0, 1, 0, 0, 0, 0, 0],
          [0x13, 0xAB, 0xA1, 0x5C, 6, 6, 1, 100, 0, 0, 100, 0, 0, 1, 0, 0,
           0x13, 0xAB, 0xA1, 0x5C, 6, 6, 1, 100, 0, 0, 100, 0, 0, 1, 0, 0, 1, 1]]"
    by (simp add: reader_defs example_tools_file_def)
  ultimately show ?thesis
    using example_tools_written by simp
qed

end
